theory Spec2Isabelle
  imports Main "HOL-Library.Char_ord" "HOL-Library.List_Lexorder"
begin

section \<open>The host graph (libobs and the frontend API, as the plugin reads them)\<close>

text \<open>
  The plugin never owns a host object: it reads the graph through the C API. A non-null
  \<^verbatim>\<open>obs_source_t *\<close> is a handle; a pointer that may be null is a \<open>handle option\<close>,
  and so is every \<^verbatim>\<open>const char *\<close> the API may return as null.
\<close>

type_synonym handle = nat

datatype obs_source_type =
  OBS_SOURCE_TYPE_INPUT | OBS_SOURCE_TYPE_FILTER | OBS_SOURCE_TYPE_TRANSITION | OBS_SOURCE_TYPE_SCENE

text \<open>
  What the API answers for one object: \<^verbatim>\<open>obs_source_get_type\<close>, \<^verbatim>\<open>obs_source_is_scene\<close>,
  \<^verbatim>\<open>obs_source_is_group\<close>, \<^verbatim>\<open>obs_source_get_name\<close>, \<^verbatim>\<open>obs_source_get_id\<close>,
  \<^verbatim>\<open>obs_source_get_uuid\<close>, the filters \<^verbatim>\<open>obs_source_enum_filters\<close> hands to its callback,
  the scene \<^verbatim>\<open>obs_scene_from_source\<close> returns (\<open>None\<close> is null) with
  \<^verbatim>\<open>obs_sceneitem_get_source\<close> of each of its items in enumeration order, and whether
  \<^verbatim>\<open>obs_weak_source_get_source\<close> on a weak reference to the object returns null.
\<close>

record obs_source =
  src_type :: obs_source_type
  src_is_scene :: bool
  src_is_group :: bool
  src_name :: "string option"
  src_id :: "string option"
  src_uuid :: "string option"
  src_filters :: "handle option list"
  src_scene :: "handle option list option"
  src_expired :: bool

text \<open>
  The graph at one moment: the objects, the pointers \<^verbatim>\<open>obs_enum_all_sources\<close> passes to
  its callback in order, the scenes \<^verbatim>\<open>obs_frontend_get_scenes\<close> lists, and
  \<^verbatim>\<open>obs_source_get_display_name\<close>.
\<close>

record obs_host =
  objects :: "handle \<Rightarrow> obs_source"
  all_sources :: "handle option list"
  frontend_scenes :: "handle list"
  source_display_name :: "string \<Rightarrow> string option"

section \<open>Library functions of C and C++ the plugin calls\<close>

text \<open>
  \<^verbatim>\<open>std::search\<close> with a binary predicate: the offset of the first position of the
  haystack at which the needle matches element by element, the haystack's length (the end
  iterator) when there is none.
\<close>

fun matches_at :: "('a \<Rightarrow> 'a \<Rightarrow> bool) \<Rightarrow> 'a list \<Rightarrow> 'a list \<Rightarrow> bool" where
  "matches_at eq hs [] = True"
| "matches_at eq [] (n # ns) = False"
| "matches_at eq (h # hs) (n # ns) = (eq h n \<and> matches_at eq hs ns)"

fun std_search :: "('a \<Rightarrow> 'a \<Rightarrow> bool) \<Rightarrow> 'a list \<Rightarrow> 'a list \<Rightarrow> nat" where
  "std_search eq [] ns = 0"
| "std_search eq (h # hs) ns =
     (if matches_at eq (h # hs) ns then 0 else Suc (std_search eq hs ns))"

text \<open>\<^verbatim>\<open>strstr(haystack, needle) != nullptr\<close>, and \<^verbatim>\<open>strcmp(a, b) == 0\<close> is equality.\<close>

definition strstr_found :: "string \<Rightarrow> string \<Rightarrow> bool" where
  "strstr_found haystack needle =
     (needle = [] \<or> std_search (=) haystack needle \<noteq> length haystack)"

text \<open>
  \<^verbatim>\<open>std::tolower\<close> on an \<^verbatim>\<open>unsigned char\<close>, in the "C" locale (and in every UTF-8
  locale): the 26 ASCII capitals are mapped, every other byte is returned as it is.
\<close>

definition tolower :: "char \<Rightarrow> char" where
  "tolower c =
     (case map_of (zip ''ABCDEFGHIJKLMNOPQRSTUVWXYZ'' ''abcdefghijklmnopqrstuvwxyz'') c of
        Some l \<Rightarrow> l
      | None \<Rightarrow> c)"

text \<open>
  \<^verbatim>\<open>std::sort(first, last, comp)\<close> with the comparison \<open>lt\<close>. The standard fixes no
  algorithm and no order among elements that compare equivalent; the model inserts each
  element before the first one it is less than. Nothing below depends on the order of
  equivalent elements.
\<close>

fun sort_insert :: "('a \<Rightarrow> 'a \<Rightarrow> bool) \<Rightarrow> 'a \<Rightarrow> 'a list \<Rightarrow> 'a list" where
  "sort_insert lt x [] = [x]"
| "sort_insert lt x (y # ys) =
     (if lt x y then x # y # ys else y # sort_insert lt x ys)"

definition std_sort :: "('a \<Rightarrow> 'a \<Rightarrow> bool) \<Rightarrow> 'a list \<Rightarrow> 'a list" where
  "std_sort lt xs = foldr (sort_insert lt) xs []"

section \<open>source-item.cpp: SourceItem\<close>

datatype SourceClass = Source | Scene | Group | Filter

record SourceItem =
  weakSource :: "handle option"
  sourceClass :: SourceClass
  parentScenes :: "string set"
  parentSourceName :: string
  cachedTypeId :: string

text \<open>The constructor \<^verbatim>\<open>SourceItem::SourceItem(obs_source_t *source)\<close>.\<close>

definition new_SourceItem :: "obs_host \<Rightarrow> handle option \<Rightarrow> SourceItem" where
  "new_SourceItem w source =
     (case source of
        None \<Rightarrow>
          \<lparr>weakSource = None, sourceClass = Source, parentScenes = {},
           parentSourceName = [], cachedTypeId = []\<rparr>
      | Some h \<Rightarrow>
          \<lparr>weakSource = Some h,
           sourceClass =
             (if src_type (objects w h) = OBS_SOURCE_TYPE_FILTER then Filter
              else if src_is_scene (objects w h) then Scene
              else if src_is_group (objects w h) then Group
              else Source),
           parentScenes = {},
           parentSourceName = [],
           cachedTypeId = (case src_id (objects w h) of Some t \<Rightarrow> t | None \<Rightarrow> [])\<rparr>)"

definition GetSource :: "obs_host \<Rightarrow> SourceItem \<Rightarrow> handle option" where
  "GetSource w item =
     (case weakSource item of
        None \<Rightarrow> None
      | Some h \<Rightarrow> if src_expired (objects w h) then None else Some h)"

definition GetName :: "obs_host \<Rightarrow> SourceItem \<Rightarrow> string" where
  "GetName w item =
     (case GetSource w item of
        None \<Rightarrow> []
      | Some h \<Rightarrow> (case src_name (objects w h) of Some n \<Rightarrow> n | None \<Rightarrow> []))"

definition GetUUID :: "obs_host \<Rightarrow> SourceItem \<Rightarrow> string" where
  "GetUUID w item =
     (case GetSource w item of
        None \<Rightarrow> []
      | Some h \<Rightarrow> (case src_uuid (objects w h) of Some u \<Rightarrow> u | None \<Rightarrow> []))"

definition GetTypeId :: "SourceItem \<Rightarrow> string" where
  "GetTypeId item = cachedTypeId item"

definition IsFilter :: "SourceItem \<Rightarrow> bool" where
  "IsFilter item = (sourceClass item = Filter)"

definition IsScene :: "SourceItem \<Rightarrow> bool" where
  "IsScene item = (sourceClass item = Scene)"

definition IsGroup :: "SourceItem \<Rightarrow> bool" where
  "IsGroup item = (sourceClass item = Group)"

definition AddParentScene :: "SourceItem \<Rightarrow> string \<Rightarrow> SourceItem" where
  "AddParentScene item sceneName = item\<lparr>parentScenes := insert sceneName (parentScenes item)\<rparr>"

definition SetParentSourceName :: "SourceItem \<Rightarrow> string \<Rightarrow> SourceItem" where
  "SetParentSourceName item sourceName = item\<lparr>parentSourceName := sourceName\<rparr>"

definition IsVerticalCanvas :: "obs_host \<Rightarrow> SourceItem \<Rightarrow> bool" where
  "IsVerticalCanvas w item =
     (if sourceClass item \<noteq> Scene then False
      else case GetSource w item of
             None \<Rightarrow> False
           | Some h \<Rightarrow> \<not> (h \<in> set (frontend_scenes w)))"

definition GetDisplayName :: "obs_host \<Rightarrow> SourceItem \<Rightarrow> string" where
  "GetDisplayName w item =
     (let name = GetName w item in
      if name = [] then name
      else if sourceClass item = Scene
        then (if IsVerticalCanvas w item then ''(V) '' else ''(H) '') @ name
      else name)"

definition ContainsCaseInsensitive :: "string \<Rightarrow> string \<Rightarrow> bool" where
  "ContainsCaseInsensitive haystack needle =
     (if needle = [] then True
      else if haystack = [] then False
      else std_search (\<lambda>a b. tolower a = tolower b) haystack needle \<noteq> length haystack)"

definition MatchesSearch :: "obs_host \<Rightarrow> SourceItem \<Rightarrow> string \<Rightarrow> bool" where
  "MatchesSearch w item searchText =
     (if searchText = [] then True
      else if ContainsCaseInsensitive (GetName w item) searchText then True
      else False)"

definition MatchesType :: "SourceItem \<Rightarrow> string \<Rightarrow> bool" where
  "MatchesType item typeFilter =
     (if typeFilter = [] \<or> typeFilter = ''all'' then True
      else cachedTypeId item = typeFilter)"

definition IsValid :: "obs_host \<Rightarrow> SourceItem \<Rightarrow> bool" where
  "IsValid w item = (case GetSource w item of Some h \<Rightarrow> True | None \<Rightarrow> False)"

section \<open>source-item.cpp: the type catalog\<close>

definition SOURCE_TYPE_NAMES :: "(string \<times> string) list" where
  "SOURCE_TYPE_NAMES =
     [(''scene'', ''Scene''),
      (''group'', ''Group''),
      (''image_source'', ''Image''),
      (''color_source'', ''Color Source''),
      (''color_source_v3'', ''Color Source v3''),
      (''slideshow'', ''Image Slide Show''),
      (''browser_source'', ''Browser''),
      (''ffmpeg_source'', ''Media Source''),
      (''vlc_source'', ''VLC Video Source''),
      (''text_gdiplus'', ''Text (GDI+)''),
      (''text_gdiplus_v2'', ''Text (GDI+) v2''),
      (''text_gdiplus_v3'', ''Text (GDI+) v3''),
      (''text_ft2_source'', ''Text (FreeType 2)''),
      (''text_ft2_source_v2'', ''Text (FreeType 2) v2''),
      (''monitor_capture'', ''Display Capture''),
      (''window_capture'', ''Window Capture''),
      (''game_capture'', ''Game Capture''),
      (''dshow_input'', ''Video Capture Device''),
      (''wasapi_input_capture'', ''Audio Input Capture''),
      (''wasapi_output_capture'', ''Audio Output Capture''),
      (''pulse_input_capture'', ''Audio Input Capture (PulseAudio)''),
      (''pulse_output_capture'', ''Audio Output Capture (PulseAudio)''),
      (''ndi_source'', ''NDI Source''),
      (''obs_stinger_transition'', ''Stinger'')]"

definition GetTypeDisplayName :: "obs_host \<Rightarrow> string \<Rightarrow> string" where
  "GetTypeDisplayName w typeId =
     (case map_of SOURCE_TYPE_NAMES typeId of
        Some n \<Rightarrow> n
      | None \<Rightarrow>
          (case source_display_name w typeId of
             Some d \<Rightarrow> if d \<noteq> [] then d else typeId
           | None \<Rightarrow> typeId))"

section \<open>source-item.cpp: SourceCollection\<close>

text \<open>
  \<^verbatim>\<open>sources\<close> owns the items; a \<^verbatim>\<open>SourceItem *\<close> is the item's index in \<^verbatim>\<open>sources\<close>
  (items are only ever appended, or all dropped by \<^verbatim>\<open>Clear\<close>), so \<^verbatim>\<open>sourcesByUUID\<close>
  maps a UUID to an index.
\<close>

record SourceCollection =
  sources :: "SourceItem list"
  sourcesByUUID :: "string \<rightharpoonup> nat"
  discoveredTypes :: "string \<rightharpoonup> string"

definition Clear :: "SourceCollection \<Rightarrow> SourceCollection" where
  "Clear c = c\<lparr>sources := [], sourcesByUUID := Map.empty, discoveredTypes := Map.empty\<rparr>"

text \<open>
  The tail both \<^verbatim>\<open>AddSource\<close> and \<^verbatim>\<open>AddFilter\<close> end with: track the type, record the
  UUID when there is one, append the item.
\<close>

definition push_item ::
  "obs_host \<Rightarrow> SourceCollection \<Rightarrow> string \<Rightarrow> string option \<Rightarrow> SourceItem \<Rightarrow> SourceCollection" where
  "push_item w c typeId uuid item =
     c\<lparr>discoveredTypes :=
         (if discoveredTypes c typeId = None
          then (discoveredTypes c)(typeId \<mapsto> GetTypeDisplayName w typeId)
          else discoveredTypes c),
       sourcesByUUID :=
         (case uuid of
            Some u \<Rightarrow> (sourcesByUUID c)(u \<mapsto> length (sources c))
          | None \<Rightarrow> sourcesByUUID c),
       sources := sources c @ [item]\<rparr>"

definition AddSource :: "obs_host \<Rightarrow> SourceCollection \<Rightarrow> handle option \<Rightarrow> SourceCollection" where
  "AddSource w c source =
     (case source of
        None \<Rightarrow> c
      | Some h \<Rightarrow>
          (if src_type (objects w h) = OBS_SOURCE_TYPE_FILTER
              \<or> src_type (objects w h) = OBS_SOURCE_TYPE_TRANSITION then c
           else (case src_name (objects w h) of
             None \<Rightarrow> c
           | Some name \<Rightarrow>
               (if length name = 0 then c
                else (case src_id (objects w h) of
                  None \<Rightarrow> c
                | Some typeId \<Rightarrow>
                    (if typeId = ''audio_monitor'' then c
                     else if strstr_found typeId ''_wrapper_'' then c
                     else if strstr_found name ''(Stinger)'' then c
                     else if typeId = ''audio_line'' then c
                     else if (case src_uuid (objects w h) of
                                Some u \<Rightarrow> sourcesByUUID c u \<noteq> None
                              | None \<Rightarrow> False) then c
                     else if \<not> IsValid w (new_SourceItem w (Some h)) then c
                     else push_item w c typeId (src_uuid (objects w h))
                            (new_SourceItem w (Some h))))))))"

definition AddFilter ::
  "obs_host \<Rightarrow> SourceCollection \<Rightarrow> handle option \<Rightarrow> string \<Rightarrow> SourceCollection" where
  "AddFilter w c flt parentName =
     (case flt of
        None \<Rightarrow> c
      | Some h \<Rightarrow>
          (case src_name (objects w h) of
             None \<Rightarrow> c
           | Some name \<Rightarrow>
               (if length name = 0 then c
                else (case src_id (objects w h) of
                  None \<Rightarrow> c
                | Some typeId \<Rightarrow>
                    (if typeId = ''audio_monitor'' then c
                     else if (case src_uuid (objects w h) of
                                Some u \<Rightarrow> sourcesByUUID c u \<noteq> None
                              | None \<Rightarrow> False) then c
                     else if \<not> IsValid w (new_SourceItem w (Some h)) then c
                     else push_item w c typeId (src_uuid (objects w h))
                            (SetParentSourceName (new_SourceItem w (Some h)) parentName))))))"

text \<open>
  \<^verbatim>\<open>LinkFilters\<close>: the pointers to the items present when the pass starts are copied
  first; each is then visited in order while \<^verbatim>\<open>AddFilter\<close> appends to \<^verbatim>\<open>sources\<close>.
\<close>

definition LinkFilters_item :: "obs_host \<Rightarrow> nat \<Rightarrow> SourceCollection \<Rightarrow> SourceCollection" where
  "LinkFilters_item w p c =
     (case GetSource w (sources c ! p) of
        None \<Rightarrow> c
      | Some h \<Rightarrow>
          fold (\<lambda>flt c'. AddFilter w c' flt (GetName w (sources c ! p)))
            (src_filters (objects w h)) c)"

definition LinkFilters :: "obs_host \<Rightarrow> SourceCollection \<Rightarrow> SourceCollection" where
  "LinkFilters w c = fold (LinkFilters_item w) [0..<length (sources c)] c"

text \<open>The callback \<^verbatim>\<open>LinkSceneItems\<close> passes to \<^verbatim>\<open>obs_scene_enum_items\<close>.\<close>

definition link_scene_item ::
  "obs_host \<Rightarrow> string \<Rightarrow> handle option \<Rightarrow> SourceCollection \<Rightarrow> SourceCollection" where
  "link_scene_item w sceneName itemSource c =
     (case itemSource of
        None \<Rightarrow> c
      | Some s \<Rightarrow>
          (case src_uuid (objects w s) of
             None \<Rightarrow> c
           | Some u \<Rightarrow>
               (case sourcesByUUID c u of
                  None \<Rightarrow> c
                | Some q \<Rightarrow>
                    c\<lparr>sources :=
                        (sources c)[q := AddParentScene (sources c ! q) sceneName]\<rparr>)))"

definition LinkSceneItems_item :: "obs_host \<Rightarrow> nat \<Rightarrow> SourceCollection \<Rightarrow> SourceCollection" where
  "LinkSceneItems_item w p c =
     (if \<not> IsScene (sources c ! p) \<and> \<not> IsGroup (sources c ! p) then c
      else (case GetSource w (sources c ! p) of
        None \<Rightarrow> c
      | Some h \<Rightarrow>
          (case src_scene (objects w h) of
             None \<Rightarrow> c
           | Some items \<Rightarrow> fold (link_scene_item w (GetName w (sources c ! p))) items c)))"

definition LinkSceneItems :: "obs_host \<Rightarrow> SourceCollection \<Rightarrow> SourceCollection" where
  "LinkSceneItems w c = fold (LinkSceneItems_item w) [0..<length (sources c)] c"

text \<open>
  \<^verbatim>\<open>Refresh\<close>: \<^verbatim>\<open>EnumAllSourcesCallback\<close> always returns true, so
  \<^verbatim>\<open>obs_enum_all_sources\<close> visits every source. The log line is left out.
\<close>

definition Refresh :: "obs_host \<Rightarrow> SourceCollection \<Rightarrow> SourceCollection" where
  "Refresh w c =
     LinkSceneItems w
       (LinkFilters w
          (fold (\<lambda>source c'. AddSource w c' source) (all_sources w) (Clear c)))"

text \<open>
  \<^verbatim>\<open>Search\<close> returns pointers to items, here indices; it reads the graph as it is when
  the search runs, which may be later than the snapshot. The comparison of the sort is
  \<^verbatim>\<open>a->GetName() < b->GetName()\<close> on \<^verbatim>\<open>std::string\<close>: bytes as unsigned values,
  lexicographically (the order of lists over the order of characters by their codes).
\<close>

definition Search :: "obs_host \<Rightarrow> SourceCollection \<Rightarrow> string \<Rightarrow> string \<Rightarrow> nat list" where
  "Search w c searchText typeFilter =
     std_sort (\<lambda>a b. GetName w (sources c ! a) < GetName w (sources c ! b))
       (filter (\<lambda>p. IsValid w (sources c ! p)
                    \<and> MatchesType (sources c ! p) typeFilter
                    \<and> MatchesSearch w (sources c ! p) searchText)
          [0..<length (sources c)])"

section \<open>source-search-dock.cpp: the result list\<close>

text \<open>
  The dock's state as far as the result list goes. A row of \<^verbatim>\<open>resultsList\<close> is kept as the
  item pointer it stores under \<^verbatim>\<open>Qt::UserRole\<close>; the row's text is not modelled, and
  the count the status label shows is the length of the list.
  \<^verbatim>\<open>typeFilterItems\<close> are the entries of the \<^verbatim>\<open>typeFilter\<close> combo box.
\<close>

record SourceSearchDock =
  sourceCollection :: SourceCollection
  currentSearchText :: string
  currentTypeFilter :: string
  currentSearchScope :: string
  resultsList :: "nat list"
  typeFilterItems :: "(string \<times> string) list"
  signalsConnected :: bool
  initialized :: bool

text \<open>The body of the loop of \<^verbatim>\<open>UpdateResults\<close> up to the two \<^verbatim>\<open>continue\<close>s.\<close>

definition row_shown :: "string \<Rightarrow> SourceItem \<Rightarrow> bool" where
  "row_shown scopeStr item =
     (if scopeStr = ''sources'' \<and> IsFilter item then False
      else if scopeStr = ''filters'' \<and> \<not> IsFilter item then False
      else if \<not> IsFilter item \<and> \<not> IsScene item \<and> \<not> IsGroup item
              \<and> parentScenes item = {} then False
      else True)"

definition UpdateResults :: "obs_host \<Rightarrow> SourceSearchDock \<Rightarrow> SourceSearchDock" where
  "UpdateResults w d =
     d\<lparr>resultsList :=
         filter (\<lambda>p. row_shown (currentSearchScope d) (sources (sourceCollection d) ! p))
           (Search w (sourceCollection d) (currentSearchText d) (currentTypeFilter d))\<rparr>"

definition DisconnectSignals :: "SourceSearchDock \<Rightarrow> SourceSearchDock" where
  "DisconnectSignals d = (if \<not> signalsConnected d then d else d\<lparr>signalsConnected := False\<rparr>)"

definition Cleanup :: "SourceSearchDock \<Rightarrow> SourceSearchDock" where
  "Cleanup d =
     (DisconnectSignals d)\<lparr>sourceCollection := Clear (sourceCollection d),
                            resultsList := [], typeFilterItems := []\<rparr>"

section \<open>What the properties below talk about\<close>

text \<open>
  What \<^verbatim>\<open>obs_source_get_uuid\<close> reports for the object a record points to, null as
  \<open>None\<close>. \<^verbatim>\<open>AddSource\<close> and \<^verbatim>\<open>AddFilter\<close> read it before the record exists;
  \<open>GetUUID\<close> turns null into the empty string.
\<close>

definition host_uuid :: "obs_host \<Rightarrow> SourceItem \<Rightarrow> string option" where
  "host_uuid w item =
     (case weakSource item of None \<Rightarrow> None | Some h \<Rightarrow> src_uuid (objects w h))"

text \<open>The scene item whose source is \<open>i\<close> reports the UUID \<open>u\<close>.\<close>

definition item_has_uuid :: "obs_host \<Rightarrow> handle option \<Rightarrow> string \<Rightarrow> bool" where
  "item_has_uuid w i u =
     (case i of None \<Rightarrow> False | Some s \<Rightarrow> src_uuid (objects w s) = Some u)"

text \<open>
  The record \<open>cont\<close> is a scene or a group whose object resolves, is a scene for
  \<^verbatim>\<open>obs_scene_from_source\<close>, and has an item whose source reports the UUID \<open>u\<close>: the
  condition under which \<^verbatim>\<open>LinkSceneItems\<close> looks \<open>u\<close> up for \<open>cont\<close>.
\<close>

definition holds_child :: "obs_host \<Rightarrow> SourceItem \<Rightarrow> string \<Rightarrow> bool" where
  "holds_child w cont u =
     ((IsScene cont \<or> IsGroup cont) \<and>
      (case GetSource w cont of
         None \<Rightarrow> False
       | Some h \<Rightarrow>
           (case src_scene (objects w h) of
              None \<Rightarrow> False
            | Some items \<Rightarrow> (\<exists>i \<in> set items. item_has_uuid w i u))))"

text \<open>
  Every filter \<^verbatim>\<open>obs_source_enum_filters\<close> reports for an enumerated source is of type
  \<^verbatim>\<open>OBS_SOURCE_TYPE_FILTER\<close>.
\<close>

definition filters_are_filters :: "obs_host \<Rightarrow> bool" where
  "filters_are_filters w =
     (\<forall>s \<in> set (all_sources w).
        case s of
          None \<Rightarrow> True
        | Some h \<Rightarrow>
            (\<forall>f \<in> set (src_filters (objects w h)).
               case f of
                 None \<Rightarrow> True
               | Some g \<Rightarrow> src_type (objects w g) = OBS_SOURCE_TYPE_FILTER))"

text \<open>The tuples a snapshot is compared by.\<close>

definition snapshot_tuples ::
  "obs_host \<Rightarrow> SourceCollection \<Rightarrow>
   (string \<times> SourceClass \<times> string \<times> string set \<times> string) set" where
  "snapshot_tuples w c =
     set (map (\<lambda>item. (GetUUID w item, sourceClass item, GetTypeId item,
                         parentScenes item, parentSourceName item))
            (sources c))"

section \<open>Invariants of the three passes of Refresh\<close>

text \<open>
  The UUID map and the records agree: \<^verbatim>\<open>sourcesByUUID\<close> maps \<open>u\<close> to the record at
  index \<open>q\<close> exactly when that record exists and the host reports \<open>u\<close> for its object.
\<close>

definition uuid_inv :: "obs_host \<Rightarrow> SourceCollection \<Rightarrow> bool" where
  "uuid_inv w c =
     (\<forall>u q. sourcesByUUID c u = Some q \<longleftrightarrow>
            (q < length (sources c) \<and> host_uuid w (sources c ! q) = Some u))"

text \<open>What holds of a record the first pass (\<^verbatim>\<open>AddSource\<close>) appended.\<close>

definition top_level_record :: "obs_host \<Rightarrow> SourceItem \<Rightarrow> bool" where
  "top_level_record w item =
     (weakSource item \<in> set (all_sources w) \<and> sourceClass item \<noteq> Filter
      \<and> parentSourceName item = [] \<and> parentScenes item = {} \<and> GetName w item \<noteq> [])"

text \<open>
  What holds of a record the second pass (\<^verbatim>\<open>LinkFilters\<close>, through \<^verbatim>\<open>AddFilter\<close>)
  appended: it points to a filter \<open>g\<close> of the object of a first-pass record \<open>parent\<close>;
  \<open>g\<close> resolves, has a non-empty name and a type tag other than "audio_monitor"; the
  record is classified by the constructor and carries the parent's \<^verbatim>\<open>GetName()\<close>.
\<close>

definition effect_record :: "obs_host \<Rightarrow> SourceItem list \<Rightarrow> SourceItem \<Rightarrow> bool" where
  "effect_record w tops item =
     (\<exists>parent \<in> set tops. \<exists>h g name typeId.
        GetSource w parent = Some h \<and> Some g \<in> set (src_filters (objects w h))
        \<and> weakSource item = Some g \<and> \<not> src_expired (objects w g)
        \<and> src_name (objects w g) = Some name \<and> name \<noteq> []
        \<and> src_id (objects w g) = Some typeId \<and> typeId \<noteq> ''audio_monitor''
        \<and> cachedTypeId item = typeId
        \<and> sourceClass item = sourceClass (new_SourceItem w (Some g))
        \<and> parentSourceName item = GetName w parent)"

text \<open>
  The collection while the second pass runs: the first-pass records \<open>tops\<close> are still in
  front, and every record after them is one the second pass appended.
\<close>

definition second_pass_inv :: "obs_host \<Rightarrow> SourceItem list \<Rightarrow> SourceCollection \<Rightarrow> bool" where
  "second_pass_inv w tops c =
     (uuid_inv w c \<and>
      (\<exists>extra. sources c = tops @ extra \<and>
         (\<forall>item \<in> set extra. effect_record w tops item \<and> parentScenes item = {})))"

text \<open>
  The third pass changes nothing but sets of parent scenes: \<open>with_parents c f\<close> is \<open>c\<close>
  with the names \<open>f p\<close> added to the record at each index \<open>p\<close>.
\<close>

definition add_parents :: "SourceItem \<Rightarrow> string set \<Rightarrow> SourceItem" where
  "add_parents item names = item\<lparr>parentScenes := parentScenes item \<union> names\<rparr>"

definition with_parents :: "SourceCollection \<Rightarrow> (nat \<Rightarrow> string set) \<Rightarrow> SourceCollection" where
  "with_parents c f =
     c\<lparr>sources := map (\<lambda>p. add_parents (sources c ! p) (f p)) [0..<length (sources c)]\<rparr>"

text \<open>
  The names \<^verbatim>\<open>LinkSceneItems\<close> adds to the record at index \<open>p\<close>: the names of the
  records that hold an item whose UUID the map sends to \<open>p\<close>.
\<close>

definition linked_names :: "obs_host \<Rightarrow> SourceCollection \<Rightarrow> nat set \<Rightarrow> nat \<Rightarrow> string set" where
  "linked_names w c qs p =
     {GetName w (sources c ! q) | q.
        q \<in> qs \<and> (\<exists>u. sourcesByUUID c u = Some p \<and> holds_child w (sources c ! q) u)}"

section \<open>Example graphs\<close>

definition no_object :: obs_source where
  "no_object =
     \<lparr>src_type = OBS_SOURCE_TYPE_INPUT, src_is_scene = False, src_is_group = False,
      src_name = None, src_id = None, src_uuid = None, src_filters = [], src_scene = None,
      src_expired = True\<rparr>"

text \<open>
  Scene "Main" (on the main canvas) holds the camera "Cam1", the group "Grp" and the nested
  scene "Vertical" (not in the frontend's scene list), which holds "Cam1" too. "Main" has
  the filter "Crop"; "Cam1" has the filters "Blur" and "Fade (Stinger)", the latter with
  the type tag "audio_line". The input "Helper" is in no scene.
\<close>

definition demo_objects :: "handle \<Rightarrow> obs_source" where
  "demo_objects h =
     (if h = 0 then
        \<lparr>src_type = OBS_SOURCE_TYPE_SCENE, src_is_scene = True, src_is_group = False,
         src_name = Some ''Main'', src_id = Some ''scene'', src_uuid = Some ''u0'',
         src_filters = [Some 6], src_scene = Some [Some 2, Some 7, Some 1],
         src_expired = False\<rparr>
      else if h = 1 then
        \<lparr>src_type = OBS_SOURCE_TYPE_SCENE, src_is_scene = True, src_is_group = False,
         src_name = Some ''Vertical'', src_id = Some ''scene'', src_uuid = Some ''u1'',
         src_filters = [], src_scene = Some [Some 2], src_expired = False\<rparr>
      else if h = 2 then
        \<lparr>src_type = OBS_SOURCE_TYPE_INPUT, src_is_scene = False, src_is_group = False,
         src_name = Some ''Cam1'', src_id = Some ''dshow_input'', src_uuid = Some ''u2'',
         src_filters = [Some 3, Some 5], src_scene = None, src_expired = False\<rparr>
      else if h = 3 then
        \<lparr>src_type = OBS_SOURCE_TYPE_FILTER, src_is_scene = False, src_is_group = False,
         src_name = Some ''Blur'', src_id = Some ''color_correction'', src_uuid = Some ''u3'',
         src_filters = [], src_scene = None, src_expired = False\<rparr>
      else if h = 4 then
        \<lparr>src_type = OBS_SOURCE_TYPE_INPUT, src_is_scene = False, src_is_group = False,
         src_name = Some ''Helper'', src_id = Some ''ffmpeg_source'', src_uuid = Some ''u4'',
         src_filters = [], src_scene = None, src_expired = False\<rparr>
      else if h = 5 then
        \<lparr>src_type = OBS_SOURCE_TYPE_FILTER, src_is_scene = False, src_is_group = False,
         src_name = Some ''Fade (Stinger)'', src_id = Some ''audio_line'',
         src_uuid = Some ''u5'', src_filters = [], src_scene = None, src_expired = False\<rparr>
      else if h = 6 then
        \<lparr>src_type = OBS_SOURCE_TYPE_FILTER, src_is_scene = False, src_is_group = False,
         src_name = Some ''Crop'', src_id = Some ''crop_filter'', src_uuid = Some ''u6'',
         src_filters = [], src_scene = None, src_expired = False\<rparr>
      else if h = 7 then
        \<lparr>src_type = OBS_SOURCE_TYPE_SCENE, src_is_scene = False, src_is_group = True,
         src_name = Some ''Grp'', src_id = Some ''group'', src_uuid = Some ''u7'',
         src_filters = [], src_scene = None, src_expired = False\<rparr>
      else no_object)"

definition demo_host :: obs_host where
  "demo_host =
     \<lparr>objects = demo_objects, all_sources = [Some 0, Some 1, Some 2, Some 4, Some 7],
      frontend_scenes = [0], source_display_name = (\<lambda>t. None)\<rparr>"

text \<open>The same graph after "Cam1" has been destroyed.\<close>

definition demo_host_later :: obs_host where
  "demo_host_later =
     demo_host\<lparr>objects := (\<lambda>h. if h = 2 then (demo_objects 2)\<lparr>src_expired := True\<rparr>
                                 else demo_objects h)\<rparr>"

text \<open>Two images for which the host reports no UUID.\<close>

definition anon_objects :: "handle \<Rightarrow> obs_source" where
  "anon_objects h =
     (if h = 0 then
        \<lparr>src_type = OBS_SOURCE_TYPE_INPUT, src_is_scene = False, src_is_group = False,
         src_name = Some ''Logo'', src_id = Some ''image_source'', src_uuid = None,
         src_filters = [], src_scene = None, src_expired = False\<rparr>
      else if h = 1 then
        \<lparr>src_type = OBS_SOURCE_TYPE_INPUT, src_is_scene = False, src_is_group = False,
         src_name = Some ''Banner'', src_id = Some ''image_source'', src_uuid = None,
         src_filters = [], src_scene = None, src_expired = False\<rparr>
      else no_object)"

definition anon_host :: obs_host where
  "anon_host =
     \<lparr>objects = anon_objects, all_sources = [Some 0, Some 1],
      frontend_scenes = [], source_display_name = (\<lambda>t. None)\<rparr>"

text \<open>
  A graph in which the host lists, among the filters of the camera "Cam", the object
  "Overlay", which it types as an input.
\<close>

definition mistyped_objects :: "handle \<Rightarrow> obs_source" where
  "mistyped_objects h =
     (if h = 0 then
        \<lparr>src_type = OBS_SOURCE_TYPE_INPUT, src_is_scene = False, src_is_group = False,
         src_name = Some ''Cam'', src_id = Some ''dshow_input'', src_uuid = Some ''m0'',
         src_filters = [Some 1], src_scene = None, src_expired = False\<rparr>
      else if h = 1 then
        \<lparr>src_type = OBS_SOURCE_TYPE_INPUT, src_is_scene = False, src_is_group = False,
         src_name = Some ''Overlay'', src_id = Some ''image_source'', src_uuid = Some ''m1'',
         src_filters = [], src_scene = None, src_expired = False\<rparr>
      else no_object)"

definition mistyped_host :: obs_host where
  "mistyped_host =
     \<lparr>objects = mistyped_objects, all_sources = [Some 0],
      frontend_scenes = [], source_display_name = (\<lambda>t. None)\<rparr>"

definition empty_collection :: SourceCollection where
  "empty_collection = \<lparr>sources = [], sourcesByUUID = Map.empty, discoveredTypes = Map.empty\<rparr>"

definition demo_snapshot :: SourceCollection where
  "demo_snapshot = Refresh demo_host empty_collection"

definition demo_items :: "SourceItem list" where
  "demo_items =
     [\<lparr>weakSource = Some 0, sourceClass = Scene, parentScenes = {},
       parentSourceName = [], cachedTypeId = ''scene''\<rparr>,
      \<lparr>weakSource = Some 1, sourceClass = Scene, parentScenes = {''Main''},
       parentSourceName = [], cachedTypeId = ''scene''\<rparr>,
      \<lparr>weakSource = Some 2, sourceClass = Source, parentScenes = {''Main'', ''Vertical''},
       parentSourceName = [], cachedTypeId = ''dshow_input''\<rparr>,
      \<lparr>weakSource = Some 4, sourceClass = Source, parentScenes = {},
       parentSourceName = [], cachedTypeId = ''ffmpeg_source''\<rparr>,
      \<lparr>weakSource = Some 7, sourceClass = Group, parentScenes = {''Main''},
       parentSourceName = [], cachedTypeId = ''group''\<rparr>,
      \<lparr>weakSource = Some 6, sourceClass = Filter, parentScenes = {},
       parentSourceName = ''Main'', cachedTypeId = ''crop_filter''\<rparr>,
      \<lparr>weakSource = Some 3, sourceClass = Filter, parentScenes = {},
       parentSourceName = ''Cam1'', cachedTypeId = ''color_correction''\<rparr>,
      \<lparr>weakSource = Some 5, sourceClass = Filter, parentScenes = {},
       parentSourceName = ''Cam1'', cachedTypeId = ''audio_line''\<rparr>]"

definition demo_dock :: SourceSearchDock where
  "demo_dock =
     \<lparr>sourceCollection = demo_snapshot, currentSearchText = [], currentTypeFilter = ''all'',
      currentSearchScope = ''all'', resultsList = [], typeFilterItems = [],
      signalsConnected = True, initialized = True\<rparr>"

section \<open>Evaluating the example graphs\<close>

lemmas refresh_defs = Refresh_def LinkSceneItems_def LinkSceneItems_item_def link_scene_item_def
  LinkFilters_def LinkFilters_item_def AddFilter_def AddSource_def push_item_def Clear_def
  new_SourceItem_def GetSource_def GetName_def IsValid_def IsScene_def IsGroup_def
  AddParentScene_def SetParentSourceName_def strstr_found_def GetTypeDisplayName_def
  SOURCE_TYPE_NAMES_def upt_conv_Cons

lemmas search_defs = Search_def MatchesType_def MatchesSearch_def ContainsCaseInsensitive_def
  IsValid_def GetSource_def GetName_def std_sort_def tolower_def upt_conv_Cons

lemma demo_host_sel:
  "objects demo_host = demo_objects"
  "all_sources demo_host = [Some 0, Some 1, Some 2, Some 4, Some 7]"
  "frontend_scenes demo_host = [0]"
  by (simp_all add: demo_host_def)

lemma demo_host_later_sel:
  "objects demo_host_later =
     (\<lambda>h. if h = 2 then (demo_objects 2)\<lparr>src_expired := True\<rparr> else demo_objects h)"
  by (simp add: demo_host_later_def)

lemma sources_demo_snapshot: "sources demo_snapshot = demo_items"
  by (simp add: demo_snapshot_def refresh_defs demo_host_def demo_objects_def
      empty_collection_def no_object_def demo_items_def insert_commute)

lemma sourcesByUUID_demo_snapshot: "sourcesByUUID demo_snapshot ''u2'' = Some 2"
  by (simp add: demo_snapshot_def refresh_defs demo_host_def demo_objects_def
      empty_collection_def no_object_def)

lemma Search_demo_all: "Search demo_host demo_snapshot [] ''all'' = [6, 2, 5, 7, 4, 3, 0, 1]"
  by (simp add: search_defs sources_demo_snapshot demo_items_def demo_host_sel demo_objects_def)

lemma Search_demo_later: "Search demo_host_later demo_snapshot [] [] = [6, 5, 7, 4, 3, 0, 1]"
  by (simp add: search_defs sources_demo_snapshot demo_items_def demo_host_later_sel
      demo_objects_def)

lemma sources_anon_snapshot:
  "sources (Refresh anon_host empty_collection) =
     [new_SourceItem anon_host (Some 0), new_SourceItem anon_host (Some 1)]"
  by (simp add: refresh_defs anon_host_def anon_objects_def empty_collection_def no_object_def)

lemma anon_host_sel: "objects anon_host = anon_objects"
  by (simp add: anon_host_def)

lemma mistyped_host_sel: "objects mistyped_host = mistyped_objects"
  by (simp add: mistyped_host_def)

lemma sources_mistyped_snapshot:
  "sources (Refresh mistyped_host empty_collection) =
     [new_SourceItem mistyped_host (Some 0),
      SetParentSourceName (new_SourceItem mistyped_host (Some 1)) ''Cam'']"
  by (simp add: refresh_defs mistyped_host_def mistyped_objects_def empty_collection_def
      no_object_def)

section \<open>std::string comparison, std::sort and std::search\<close>

text \<open>
  \<^verbatim>\<open>std::string\<close>'s \<^verbatim>\<open>operator<\<close> compares byte by byte, bytes as unsigned values, a
  proper prefix being less. That is the order on \<open>string\<close> in force here.
\<close>

lemma string_less_bytewise:
  "\<not> x < ([] :: string)"
  "([] :: string) < b # y"
  "(a # x) < (b # y) \<longleftrightarrow> (of_char a :: nat) < of_char b \<or> a = b \<and> x < y"
  by (simp_all add: less_char_def)

lemma string_order_example: "''Mid'' < ''Zeta'' \<and> ''Zeta'' < ''alpha'' \<and> ''Cam'' < ''Cam1''"
  by simp


lemma set_sort_insert: "set (sort_insert lt x ys) = insert x (set ys)"
  by (induction ys) auto

lemma set_std_sort: "set (std_sort lt xs) = set xs"
  by (induction xs) (simp_all add: std_sort_def set_sort_insert)

lemma sorted_sort_insert:
  fixes key :: "'a \<Rightarrow> 'k::linorder"
  assumes "sorted (map key ys)"
  shows "sorted (map key (sort_insert (\<lambda>a b. key a < key b) x ys))"
  using assms by (induction ys) (auto simp: set_sort_insert)

lemma sorted_std_sort:
  fixes key :: "'a \<Rightarrow> 'k::linorder"
  shows "sorted (map key (std_sort (\<lambda>a b. key a < key b) xs))"
  by (induction xs) (simp_all add: std_sort_def sorted_sort_insert)

lemma matches_at_iff:
  "matches_at eq hs ns \<longleftrightarrow> (\<exists>mid post. hs = mid @ post \<and> list_all2 eq mid ns)"
proof (induction eq hs ns rule: matches_at.induct)
  case (1 eq hs)
  then show ?case by simp
next
  case (2 eq n ns)
  then show ?case by simp
next
  case (3 eq h hs n ns)
  show ?case
  proof
    assume "matches_at eq (h # hs) (n # ns)"
    with 3 obtain mid post where "eq h n" "hs = mid @ post" "list_all2 eq mid ns"
      by auto
    then have "h # hs = (h # mid) @ post \<and> list_all2 eq (h # mid) (n # ns)"
      by simp
    then show "\<exists>mid post. h # hs = mid @ post \<and> list_all2 eq mid (n # ns)"
      by blast
  next
    assume "\<exists>mid post. h # hs = mid @ post \<and> list_all2 eq mid (n # ns)"
    then obtain mid post where m: "h # hs = mid @ post" "list_all2 eq mid (n # ns)"
      by blast
    from m(2) obtain m0 mid' where mid: "mid = m0 # mid'" "eq m0 n" "list_all2 eq mid' ns"
      by (auto simp: list_all2_Cons2)
    with m(1) have "h = m0" "hs = mid' @ post"
      by simp_all
    with mid 3 show "matches_at eq (h # hs) (n # ns)"
      by auto
  qed
qed

lemma std_search_le: "std_search eq hs ns \<le> length hs"
  by (induction hs) auto

lemma std_search_found_iff:
  assumes "ns \<noteq> []"
  shows "std_search eq hs ns \<noteq> length hs \<longleftrightarrow>
         (\<exists>pre mid post. hs = pre @ mid @ post \<and> list_all2 eq mid ns)"
proof (induction hs)
  case Nil
  from assms show ?case by (auto simp: list_all2_Nil)
next
  case (Cons h hs)
  show ?case
  proof (cases "matches_at eq (h # hs) ns")
    case True
    then obtain mid post where "h # hs = [] @ mid @ post" "list_all2 eq mid ns"
      by (auto simp: matches_at_iff)
    then have "\<exists>pre mid post. h # hs = pre @ mid @ post \<and> list_all2 eq mid ns"
      by blast
    with True show ?thesis by simp
  next
    case False
    have "(\<exists>pre mid post. h # hs = pre @ mid @ post \<and> list_all2 eq mid ns) \<longleftrightarrow>
          (\<exists>pre mid post. hs = pre @ mid @ post \<and> list_all2 eq mid ns)"
    proof
      assume "\<exists>pre mid post. h # hs = pre @ mid @ post \<and> list_all2 eq mid ns"
      then obtain pre mid post where p: "h # hs = pre @ mid @ post" "list_all2 eq mid ns"
        by blast
      show "\<exists>pre mid post. hs = pre @ mid @ post \<and> list_all2 eq mid ns"
      proof (cases pre)
        case Nil
        with p have "matches_at eq (h # hs) ns"
          by (auto simp: matches_at_iff)
        with False show ?thesis by simp
      next
        case (Cons a pre')
        with p have "hs = pre' @ mid @ post" by simp
        with p(2) show ?thesis by blast
      qed
    next
      assume "\<exists>pre mid post. hs = pre @ mid @ post \<and> list_all2 eq mid ns"
      then obtain pre mid post where "hs = pre @ mid @ post" "list_all2 eq mid ns"
        by blast
      then have "h # hs = (h # pre) @ mid @ post \<and> list_all2 eq mid ns"
        by simp
      then show "\<exists>pre mid post. h # hs = pre @ mid @ post \<and> list_all2 eq mid ns"
        by blast
    qed
    with False Cons show ?thesis by simp
  qed
qed

lemma list_all2_tolower:
  "list_all2 (\<lambda>a b. tolower a = tolower b) xs ys \<longleftrightarrow> map tolower xs = map tolower ys"
  by (induction xs arbitrary: ys) (auto simp: list_all2_Cons1)

lemma ContainsCaseInsensitive_iff:
  "ContainsCaseInsensitive haystack needle \<longleftrightarrow>
     (\<exists>pre mid post. haystack = pre @ mid @ post \<and> map tolower mid = map tolower needle)"
proof (cases "needle = []")
  case True
  have "haystack = [] @ [] @ haystack \<and> map tolower [] = map tolower needle"
    using True by simp
  then have "\<exists>pre mid post. haystack = pre @ mid @ post \<and> map tolower mid = map tolower needle"
    by blast
  with True show ?thesis by (simp add: ContainsCaseInsensitive_def)
next
  case False
  show ?thesis
  proof (cases "haystack = []")
    case True
    with False show ?thesis by (auto simp: ContainsCaseInsensitive_def)
  next
    case hay: False
    with False show ?thesis
      by (simp add: ContainsCaseInsensitive_def std_search_found_iff list_all2_tolower)
  qed
qed

lemma ContainsCaseInsensitive_cong:
  "map tolower n1 = map tolower n2 \<Longrightarrow>
   ContainsCaseInsensitive hay n1 = ContainsCaseInsensitive hay n2"
  by (simp add: ContainsCaseInsensitive_iff)

section \<open>Claims about Search and the result list\<close>

text \<open>
  C2, as stated, fails: the list \<^verbatim>\<open>Search\<close> returns need not be ordered by display name.
  In the example the records named "Helper", "Main" and "Vertical" come in this order, and
  their display names are "Helper", "(H) Main" and "(V) Vertical".
\<close>

theorem Search_display_name_order_counterexample:
  "\<not> sorted (map (\<lambda>p. GetDisplayName demo_host (sources demo_snapshot ! p))
               (Search demo_host demo_snapshot [] ''all''))"
  by (simp add: Search_demo_all sources_demo_snapshot demo_items_def GetDisplayName_def
      IsVerticalCanvas_def GetName_def GetSource_def demo_host_sel demo_objects_def)

text \<open>
  C2, amended: for every call \<^verbatim>\<open>Search(searchText, typeFilter)\<close> the returned list is
  ordered by the records' raw names (\<^verbatim>\<open>GetName\<close>, without the (H)/(V) annotation),
  compared byte by byte as \<^verbatim>\<open>std::string\<close> does.
\<close>

theorem Search_sorted_by_name:
  "sorted (map (\<lambda>p. GetName w (sources c ! p)) (Search w c searchText typeFilter))"
  unfolding Search_def by (rule sorted_std_sort)

text \<open>
  C6, as stated, fails: the scene "Main" is displayed as "(H) Main", which contains "(h)"
  up to case, but the text filter drops the record for the search text "(h)".
\<close>

theorem MatchesSearch_display_name_counterexample:
  "\<not> (MatchesSearch demo_host (sources demo_snapshot ! 0) ''(h)'' \<longleftrightarrow>
        ''(h)'' = [] \<or>
        (\<exists>pre mid post. GetDisplayName demo_host (sources demo_snapshot ! 0) = pre @ mid @ post
           \<and> map tolower mid = map tolower ''(h)''))"
proof -
  have no: "\<not> MatchesSearch demo_host (sources demo_snapshot ! 0) ''(h)''"
    by (simp add: search_defs sources_demo_snapshot demo_items_def demo_host_sel demo_objects_def)
  have "GetDisplayName demo_host (sources demo_snapshot ! 0) = ''(H) Main''"
    by (simp add: sources_demo_snapshot demo_items_def GetDisplayName_def
      IsVerticalCanvas_def GetName_def GetSource_def demo_host_sel demo_objects_def)
  moreover have "''(H) Main'' = [] @ ''(H)'' @ '' Main'' \<and> map tolower ''(H)'' = map tolower ''(h)''"
    by (simp add: tolower_def)
  ultimately have "\<exists>pre mid post. GetDisplayName demo_host (sources demo_snapshot ! 0) = pre @ mid @ post
           \<and> map tolower mid = map tolower ''(h)''"
    by metis
  with no show ?thesis by blast
qed

text \<open>
  C6, amended: a record survives the text filter if and only if the search text is empty
  or the record's raw name (\<^verbatim>\<open>GetName\<close>, without the (H)/(V) annotation) contains it as
  a substring up to the case of ASCII letters; nothing but the name is consulted. Searching
  "cam" and "CAM" over the same snapshot gives the same result.
\<close>

theorem MatchesSearch_raw_name:
  "(MatchesSearch w item searchText \<longleftrightarrow>
      searchText = [] \<or>
      (\<exists>pre mid post. GetName w item = pre @ mid @ post
         \<and> map tolower mid = map tolower searchText))
   \<and> Search w c ''cam'' typeFilter = Search w c ''CAM'' typeFilter"
proof
  show "MatchesSearch w item searchText \<longleftrightarrow>
      searchText = [] \<or>
      (\<exists>pre mid post. GetName w item = pre @ mid @ post
         \<and> map tolower mid = map tolower searchText)"
    by (simp add: MatchesSearch_def ContainsCaseInsensitive_iff)
  have "map tolower ''cam'' = map tolower ''CAM''"
    by (simp add: tolower_def)
  then have "ContainsCaseInsensitive hay ''cam'' = ContainsCaseInsensitive hay ''CAM''" for hay
    by (rule ContainsCaseInsensitive_cong)
  then show "Search w c ''cam'' typeFilter = Search w c ''CAM'' typeFilter"
    by (simp add: Search_def MatchesSearch_def)
qed

text \<open>
  C7: a record that is not a filter, not a scene and not a group, and whose set of parent
  scenes is empty, is in no result list \<^verbatim>\<open>UpdateResults\<close> builds, whatever the search
  text, the type filter and the scope of the dock are.
\<close>

theorem orphan_never_displayed:
  assumes "\<not> IsFilter (sources (sourceCollection d) ! p)"
    and "\<not> IsScene (sources (sourceCollection d) ! p)"
    and "\<not> IsGroup (sources (sourceCollection d) ! p)"
    and "parentScenes (sources (sourceCollection d) ! p) = {}"
  shows "p \<notin> set (resultsList (UpdateResults w d))"
  using assms by (simp add: UpdateResults_def row_shown_def)

text \<open>
  C7 at the example: "Helper" is in no scene; \<^verbatim>\<open>Search\<close> returns it and the result list
  leaves it out.
\<close>

theorem orphan_never_displayed_witness:
  "\<not> IsFilter (sources (sourceCollection demo_dock) ! 3)
   \<and> \<not> IsScene (sources (sourceCollection demo_dock) ! 3)
   \<and> \<not> IsGroup (sources (sourceCollection demo_dock) ! 3)
   \<and> parentScenes (sources (sourceCollection demo_dock) ! 3) = {}
   \<and> 3 \<in> set (Search demo_host demo_snapshot [] ''all'')
   \<and> 3 \<notin> set (resultsList (UpdateResults demo_host demo_dock))"
proof -
  have h: "\<not> IsFilter (sources (sourceCollection demo_dock) ! 3)"
    "\<not> IsScene (sources (sourceCollection demo_dock) ! 3)"
    "\<not> IsGroup (sources (sourceCollection demo_dock) ! 3)"
    "parentScenes (sources (sourceCollection demo_dock) ! 3) = {}"
    by (simp_all add: demo_dock_def sources_demo_snapshot demo_items_def IsFilter_def
        IsScene_def IsGroup_def)
  have "3 \<in> set (Search demo_host demo_snapshot [] ''all'')"
    by (simp add: Search_demo_all)
  with h orphan_never_displayed [OF h, of demo_host] show ?thesis
    by simp
qed

text \<open>
  C8: \<^verbatim>\<open>Search\<close> never returns a record whose weak source no longer resolves in the
  graph as it is when the search runs; the record is left out of the list, and the search
  returns a list all the same.
\<close>

theorem Search_drops_stale:
  "\<not> IsValid w (sources c ! p) \<Longrightarrow> p \<notin> set (Search w c searchText typeFilter)"
  by (simp add: Search_def set_std_sort)

text \<open>C8 at the example: "Cam1" is destroyed after the snapshot was taken.\<close>

theorem Search_drops_stale_witness:
  "IsValid demo_host (sources demo_snapshot ! 2)
   \<and> \<not> IsValid demo_host_later (sources demo_snapshot ! 2)
   \<and> 2 \<notin> set (Search demo_host_later demo_snapshot [] [])"
proof -
  have h: "\<not> IsValid demo_host_later (sources demo_snapshot ! 2)"
    by (simp add: IsValid_def GetSource_def sources_demo_snapshot demo_items_def
        demo_host_later_sel)
  have "IsValid demo_host (sources demo_snapshot ! 2)"
    by (simp add: IsValid_def GetSource_def sources_demo_snapshot demo_items_def
        demo_host_sel demo_objects_def)
  with h Search_drops_stale [OF h, of "[]" "[]"] show ?thesis
    by simp
qed

lemma Clear_empty_collection: "Clear c = empty_collection"
  by (cases c) (simp add: Clear_def empty_collection_def)

lemma Refresh_ignores_previous: "Refresh w c = Refresh w c'"
  by (simp add: Refresh_def Clear_empty_collection)

text \<open>
  C9: a second \<^verbatim>\<open>Refresh\<close> against the same graph rebuilds the same snapshot, so the sets
  of (identity, classification, type tag, parent scenes, parent source name) tuples of the
  two snapshots are equal.
\<close>

theorem Refresh_idempotent:
  "Refresh w (Refresh w c) = Refresh w c
   \<and> snapshot_tuples w (Refresh w (Refresh w c)) = snapshot_tuples w (Refresh w c)"
  using Refresh_ignores_previous [of w "Refresh w c" c] by simp

text \<open>
  C10: after \<^verbatim>\<open>Clear\<close> the collection holds no record, no UUID and no discovered type,
  and \<^verbatim>\<open>Search\<close> returns the empty list for every search text and type filter.
  \<^verbatim>\<open>Cleanup\<close> of the dock clears the collection, and \<^verbatim>\<open>Refresh\<close> starts by clearing
  it.
\<close>

theorem Clear_postcondition:
  "sources (Clear c) = [] \<and> sourcesByUUID (Clear c) = Map.empty
   \<and> discoveredTypes (Clear c) = Map.empty
   \<and> Search w (Clear c) searchText typeFilter = []
   \<and> sourceCollection (Cleanup d) = Clear (sourceCollection d)
   \<and> Refresh w c = Refresh w (Clear c)"
  by (simp add: Clear_def Search_def std_sort_def Cleanup_def Refresh_def)

section \<open>The three passes of Refresh\<close>

lemma fold_invariant:
  assumes "P s" and "\<And>x s. x \<in> set xs \<Longrightarrow> P s \<Longrightarrow> P (f x s)"
  shows "P (fold f xs s)"
  using assms by (induction xs arbitrary: s) auto

lemma sources_push_item: "sources (push_item w c t u it) = sources c @ [it]"
  by (simp add: push_item_def)

lemma sourcesByUUID_push_item:
  "sourcesByUUID (push_item w c t u it) =
     (case u of Some x \<Rightarrow> (sourcesByUUID c)(x \<mapsto> length (sources c)) | None \<Rightarrow> sourcesByUUID c)"
  by (simp add: push_item_def)

lemma host_uuid_new_SourceItem:
  "host_uuid w (new_SourceItem w (Some h)) = src_uuid (objects w h)"
  "host_uuid w (SetParentSourceName (new_SourceItem w (Some h)) n) = src_uuid (objects w h)"
  by (simp_all add: host_uuid_def new_SourceItem_def SetParentSourceName_def)

lemma uuid_inv_push_item:
  assumes inv: "uuid_inv w c"
    and it: "host_uuid w it = u"
    and fresh: "\<And>x. u = Some x \<Longrightarrow> sourcesByUUID c x = None"
  shows "uuid_inv w (push_item w c t u it)"
proof (cases u)
  case None
  with inv it show ?thesis
    by (auto simp: uuid_inv_def sources_push_item sourcesByUUID_push_item nth_append)
next
  case (Some x)
  with fresh have none: "sourcesByUUID c x = None" by simp
  have unseen: "host_uuid w (sources c ! q) \<noteq> Some x" if "q < length (sources c)" for q
  proof
    assume "host_uuid w (sources c ! q) = Some x"
    with inv that have "sourcesByUUID c x = Some q"
      by (simp add: uuid_inv_def)
    with none show False by simp
  qed
  have old: "sourcesByUUID c v = Some q \<longleftrightarrow>
      (q < length (sources c) \<and> host_uuid w (sources c ! q) = Some v)" for v q
    using inv by (simp add: uuid_inv_def)
  show ?thesis
    unfolding uuid_inv_def sources_push_item sourcesByUUID_push_item Some
  proof (intro allI)
    fix v q
    show "(case Some x of None \<Rightarrow> sourcesByUUID c
           | Some x \<Rightarrow> (sourcesByUUID c)(x \<mapsto> length (sources c))) v = Some q \<longleftrightarrow>
          (q < length (sources c @ [it]) \<and> host_uuid w ((sources c @ [it]) ! q) = Some v)"
    proof (cases "q < length (sources c)")
      case True
      with unseen [OF True] old [of v q] show ?thesis
        by (auto simp: nth_append)
    next
      case False
      with old [of v q] it Some show ?thesis
        by (auto simp: nth_append less_Suc_eq)
    qed
  qed
qed

lemma AddSource_result:
  "AddSource w c src = c \<or>
   (\<exists>h name typeId. src = Some h
      \<and> src_type (objects w h) \<noteq> OBS_SOURCE_TYPE_FILTER
      \<and> src_name (objects w h) = Some name \<and> name \<noteq> []
      \<and> src_id (objects w h) = Some typeId
      \<and> (\<forall>u. src_uuid (objects w h) = Some u \<longrightarrow> sourcesByUUID c u = None)
      \<and> \<not> src_expired (objects w h)
      \<and> AddSource w c src =
          push_item w c typeId (src_uuid (objects w h)) (new_SourceItem w (Some h)))"
proof (cases src)
  case None
  then show ?thesis by (simp add: AddSource_def)
next
  case (Some h)
  show ?thesis
  proof (cases "AddSource w c src = c")
    case True
    then show ?thesis by simp
  next
    case False
    from False Some have ty: "src_type (objects w h) \<noteq> OBS_SOURCE_TYPE_FILTER"
      by (auto simp: AddSource_def)
    from False Some obtain name where name: "src_name (objects w h) = Some name"
      by (cases "src_name (objects w h)") (auto simp: AddSource_def)
    from False Some name have ne: "name \<noteq> []"
      by (auto simp: AddSource_def)
    from False Some name obtain typeId where tid: "src_id (objects w h) = Some typeId"
      by (cases "src_id (objects w h)") (auto simp: AddSource_def split: if_splits)
    from False Some name tid have fresh: "\<forall>u. src_uuid (objects w h) = Some u \<longrightarrow> sourcesByUUID c u = None"
      by (auto simp: AddSource_def split: if_splits)
    from False Some name tid have live: "\<not> src_expired (objects w h)"
      by (auto simp: AddSource_def IsValid_def GetSource_def new_SourceItem_def split: if_splits)
    from False Some name tid have
      "AddSource w c src = push_item w c typeId (src_uuid (objects w h)) (new_SourceItem w (Some h))"
      by (simp add: AddSource_def split: if_splits)
    with Some ty name ne tid fresh live show ?thesis by blast
  qed
qed

lemma AddFilter_result:
  "AddFilter w c flt parentName = c \<or>
   (\<exists>h name typeId. flt = Some h
      \<and> src_name (objects w h) = Some name \<and> name \<noteq> []
      \<and> src_id (objects w h) = Some typeId \<and> typeId \<noteq> ''audio_monitor''
      \<and> (\<forall>u. src_uuid (objects w h) = Some u \<longrightarrow> sourcesByUUID c u = None)
      \<and> \<not> src_expired (objects w h)
      \<and> AddFilter w c flt parentName =
          push_item w c typeId (src_uuid (objects w h))
            (SetParentSourceName (new_SourceItem w (Some h)) parentName))"
proof (cases flt)
  case None
  then show ?thesis by (simp add: AddFilter_def)
next
  case (Some h)
  show ?thesis
  proof (cases "AddFilter w c flt parentName = c")
    case True
    then show ?thesis by simp
  next
    case False
    from False Some obtain name where name: "src_name (objects w h) = Some name"
      by (cases "src_name (objects w h)") (auto simp: AddFilter_def)
    from False Some name have ne: "name \<noteq> []"
      by (auto simp: AddFilter_def)
    from False Some name obtain typeId where tid: "src_id (objects w h) = Some typeId"
      by (cases "src_id (objects w h)") (auto simp: AddFilter_def split: if_splits)
    from False Some name tid have am: "typeId \<noteq> ''audio_monitor''"
      by (auto simp: AddFilter_def split: if_splits)
    from False Some name tid have fresh: "\<forall>u. src_uuid (objects w h) = Some u \<longrightarrow> sourcesByUUID c u = None"
      by (auto simp: AddFilter_def split: if_splits)
    from False Some name tid have live: "\<not> src_expired (objects w h)"
      by (auto simp: AddFilter_def IsValid_def GetSource_def new_SourceItem_def split: if_splits)
    from False Some name tid have
      "AddFilter w c flt parentName = push_item w c typeId (src_uuid (objects w h))
            (SetParentSourceName (new_SourceItem w (Some h)) parentName)"
      by (simp add: AddFilter_def split: if_splits)
    with Some name ne tid am fresh live show ?thesis by blast
  qed
qed

lemma uuid_inv_AddSource: "uuid_inv w c \<Longrightarrow> uuid_inv w (AddSource w c src)"
proof -
  assume inv: "uuid_inv w c"
  from AddSource_result [of w c src] show ?thesis
  proof
    assume "AddSource w c src = c"
    with inv show ?thesis by simp
  next
    assume "\<exists>h name typeId. src = Some h
      \<and> src_type (objects w h) \<noteq> OBS_SOURCE_TYPE_FILTER
      \<and> src_name (objects w h) = Some name \<and> name \<noteq> []
      \<and> src_id (objects w h) = Some typeId
      \<and> (\<forall>u. src_uuid (objects w h) = Some u \<longrightarrow> sourcesByUUID c u = None)
      \<and> \<not> src_expired (objects w h)
      \<and> AddSource w c src =
          push_item w c typeId (src_uuid (objects w h)) (new_SourceItem w (Some h))"
    then obtain h typeId where
      fresh: "\<forall>u. src_uuid (objects w h) = Some u \<longrightarrow> sourcesByUUID c u = None"
      and eq: "AddSource w c src =
          push_item w c typeId (src_uuid (objects w h)) (new_SourceItem w (Some h))"
      by blast
    from inv fresh show ?thesis
      unfolding eq by (intro uuid_inv_push_item) (simp_all add: host_uuid_new_SourceItem)
  qed
qed

lemma uuid_inv_AddFilter: "uuid_inv w c \<Longrightarrow> uuid_inv w (AddFilter w c flt n)"
proof -
  assume inv: "uuid_inv w c"
  from AddFilter_result [of w c flt n] show ?thesis
  proof
    assume "AddFilter w c flt n = c"
    with inv show ?thesis by simp
  next
    assume "\<exists>h name typeId. flt = Some h
      \<and> src_name (objects w h) = Some name \<and> name \<noteq> []
      \<and> src_id (objects w h) = Some typeId \<and> typeId \<noteq> ''audio_monitor''
      \<and> (\<forall>u. src_uuid (objects w h) = Some u \<longrightarrow> sourcesByUUID c u = None)
      \<and> \<not> src_expired (objects w h)
      \<and> AddFilter w c flt n =
          push_item w c typeId (src_uuid (objects w h))
            (SetParentSourceName (new_SourceItem w (Some h)) n)"
    then obtain h typeId where
      fresh: "\<forall>u. src_uuid (objects w h) = Some u \<longrightarrow> sourcesByUUID c u = None"
      and eq: "AddFilter w c flt n =
          push_item w c typeId (src_uuid (objects w h))
            (SetParentSourceName (new_SourceItem w (Some h)) n)"
      by blast
    from inv fresh show ?thesis
      unfolding eq by (intro uuid_inv_push_item) (simp_all add: host_uuid_new_SourceItem)
  qed
qed

lemma uuid_inv_Clear: "uuid_inv w (Clear c)"
  by (simp add: uuid_inv_def Clear_def)

subsection \<open>First pass\<close>

lemma GetName_new_SourceItem:
  "\<not> src_expired (objects w h) \<Longrightarrow> src_name (objects w h) = Some name \<Longrightarrow>
   GetName w (new_SourceItem w (Some h)) = name"
  by (simp add: GetName_def GetSource_def new_SourceItem_def)

lemma top_level_AddSource:
  assumes "src \<in> set (all_sources w)"
    and "\<forall>item \<in> set (sources c). top_level_record w item"
  shows "\<forall>item \<in> set (sources (AddSource w c src)). top_level_record w item"
proof -
  from AddSource_result [of w c src] show ?thesis
  proof
    assume "AddSource w c src = c"
    with assms show ?thesis by simp
  next
    assume "\<exists>h name typeId. src = Some h
      \<and> src_type (objects w h) \<noteq> OBS_SOURCE_TYPE_FILTER
      \<and> src_name (objects w h) = Some name \<and> name \<noteq> []
      \<and> src_id (objects w h) = Some typeId
      \<and> (\<forall>u. src_uuid (objects w h) = Some u \<longrightarrow> sourcesByUUID c u = None)
      \<and> \<not> src_expired (objects w h)
      \<and> AddSource w c src =
          push_item w c typeId (src_uuid (objects w h)) (new_SourceItem w (Some h))"
    then obtain h name typeId where src: "src = Some h"
      and ty: "src_type (objects w h) \<noteq> OBS_SOURCE_TYPE_FILTER"
      and name: "src_name (objects w h) = Some name" "name \<noteq> []"
      and live: "\<not> src_expired (objects w h)"
      and eq: "AddSource w c src =
          push_item w c typeId (src_uuid (objects w h)) (new_SourceItem w (Some h))"
      by blast
    have "GetName w (new_SourceItem w (Some h)) \<noteq> []"
      using GetName_new_SourceItem [OF live name(1)] name(2) by simp
    moreover have "weakSource (new_SourceItem w (Some h)) = Some h"
      "sourceClass (new_SourceItem w (Some h)) \<noteq> Filter"
      "parentSourceName (new_SourceItem w (Some h)) = []"
      "parentScenes (new_SourceItem w (Some h)) = {}"
      using ty by (simp_all add: new_SourceItem_def)
    ultimately have "top_level_record w (new_SourceItem w (Some h))"
      using assms(1) src by (simp add: top_level_record_def)
    with assms(2) show ?thesis
      unfolding eq by (simp add: sources_push_item)
  qed
qed

lemma first_pass:
  defines "pass1 w c \<equiv> fold (\<lambda>source c'. AddSource w c' source) (all_sources w) (Clear c)"
  shows "uuid_inv w (pass1 w c) \<and> (\<forall>item \<in> set (sources (pass1 w c)). top_level_record w item)"
  unfolding pass1_def
proof (rule fold_invariant)
  show "uuid_inv w (Clear c) \<and> (\<forall>item \<in> set (sources (Clear c)). top_level_record w item)"
    by (simp add: uuid_inv_Clear) (simp add: Clear_def)
next
  fix src c'
  assume "src \<in> set (all_sources w)"
    and "uuid_inv w c' \<and> (\<forall>item \<in> set (sources c'). top_level_record w item)"
  then show "uuid_inv w (AddSource w c' src)
      \<and> (\<forall>item \<in> set (sources (AddSource w c' src)). top_level_record w item)"
    using uuid_inv_AddSource [of w c' src] top_level_AddSource [of src w c'] by blast
qed

subsection \<open>Second pass\<close>

lemma second_pass_AddFilter:
  assumes parent: "parent \<in> set tops" "GetSource w parent = Some h"
    and flt: "flt \<in> set (src_filters (objects w h))"
    and inv: "second_pass_inv w tops c"
  shows "second_pass_inv w tops (AddFilter w c flt (GetName w parent))"
proof -
  from inv obtain extra where ex: "sources c = tops @ extra"
    "\<forall>item \<in> set extra. effect_record w tops item \<and> parentScenes item = {}"
    by (auto simp: second_pass_inv_def)
  from inv have u: "uuid_inv w (AddFilter w c flt (GetName w parent))"
    by (simp add: second_pass_inv_def uuid_inv_AddFilter)
  from AddFilter_result [of w c flt "GetName w parent"] show ?thesis
  proof
    assume "AddFilter w c flt (GetName w parent) = c"
    with inv show ?thesis by simp
  next
    assume "\<exists>g name typeId. flt = Some g
      \<and> src_name (objects w g) = Some name \<and> name \<noteq> []
      \<and> src_id (objects w g) = Some typeId \<and> typeId \<noteq> ''audio_monitor''
      \<and> (\<forall>u. src_uuid (objects w g) = Some u \<longrightarrow> sourcesByUUID c u = None)
      \<and> \<not> src_expired (objects w g)
      \<and> AddFilter w c flt (GetName w parent) =
          push_item w c typeId (src_uuid (objects w g))
            (SetParentSourceName (new_SourceItem w (Some g)) (GetName w parent))"
    then obtain g name typeId where g: "flt = Some g"
      and name: "src_name (objects w g) = Some name" "name \<noteq> []"
      and tid: "src_id (objects w g) = Some typeId" "typeId \<noteq> ''audio_monitor''"
      and live: "\<not> src_expired (objects w g)"
      and eq: "AddFilter w c flt (GetName w parent) =
          push_item w c typeId (src_uuid (objects w g))
            (SetParentSourceName (new_SourceItem w (Some g)) (GetName w parent))"
      by blast
    define item where "item = SetParentSourceName (new_SourceItem w (Some g)) (GetName w parent)"
    have fields: "weakSource item = Some g" "cachedTypeId item = typeId"
      "sourceClass item = sourceClass (new_SourceItem w (Some g))"
      "parentSourceName item = GetName w parent" "parentScenes item = {}"
      using tid by (simp_all add: item_def SetParentSourceName_def new_SourceItem_def)
    have "effect_record w tops item"
      unfolding effect_record_def
      using parent flt g name tid live fields(1-4) by blast
    with ex fields(5) have "sources (AddFilter w c flt (GetName w parent)) = tops @ (extra @ [item])
        \<and> (\<forall>i \<in> set (extra @ [item]). effect_record w tops i \<and> parentScenes i = {})"
      unfolding eq item_def [symmetric] by (simp add: sources_push_item)
    with u show ?thesis
      unfolding second_pass_inv_def by blast
  qed
qed

lemma second_pass_LinkFilters_item:
  assumes p: "p < length tops"
    and inv: "second_pass_inv w tops c"
  shows "second_pass_inv w tops (LinkFilters_item w p c)"
proof -
  from inv obtain extra where "sources c = tops @ extra"
    by (auto simp: second_pass_inv_def)
  with p have at: "sources c ! p = tops ! p" "tops ! p \<in> set tops"
    by (simp_all add: nth_append)
  show ?thesis
  proof (cases "GetSource w (tops ! p)")
    case None
    with at inv show ?thesis by (simp add: LinkFilters_item_def)
  next
    case (Some h)
    have "second_pass_inv w tops
        (fold (\<lambda>flt c'. AddFilter w c' flt (GetName w (tops ! p))) (src_filters (objects w h)) c)"
      using inv
    proof (rule fold_invariant)
      fix flt c'
      assume "flt \<in> set (src_filters (objects w h))" "second_pass_inv w tops c'"
      with at(2) Some show "second_pass_inv w tops (AddFilter w c' flt (GetName w (tops ! p)))"
        by (intro second_pass_AddFilter)
    qed
    with Some at show ?thesis by (simp add: LinkFilters_item_def)
  qed
qed

lemma second_pass:
  assumes "uuid_inv w c"
  shows "second_pass_inv w (sources c) (LinkFilters w c)"
  unfolding LinkFilters_def
proof (rule fold_invariant)
  from assms have "uuid_inv w c \<and> sources c = sources c @ []
      \<and> (\<forall>item \<in> set []. effect_record w (sources c) item \<and> parentScenes item = {})"
    by simp
  then show "second_pass_inv w (sources c) c"
    unfolding second_pass_inv_def by blast
next
  fix p c'
  assume "p \<in> set [0..<length (sources c)]" "second_pass_inv w (sources c) c'"
  then show "second_pass_inv w (sources c) (LinkFilters_item w p c')"
    by (intro second_pass_LinkFilters_item) simp_all
qed

subsection \<open>Third pass\<close>

lemma add_parents_simps:
  "weakSource (add_parents r A) = weakSource r"
  "sourceClass (add_parents r A) = sourceClass r"
  "parentSourceName (add_parents r A) = parentSourceName r"
  "cachedTypeId (add_parents r A) = cachedTypeId r"
  "parentScenes (add_parents r A) = parentScenes r \<union> A"
  "add_parents (add_parents r A) B = add_parents r (A \<union> B)"
  "add_parents r {} = r"
  by (simp_all add: add_parents_def Un_assoc)

lemma add_parents_reads:
  "GetSource w (add_parents r A) = GetSource w r"
  "GetName w (add_parents r A) = GetName w r"
  "host_uuid w (add_parents r A) = host_uuid w r"
  "holds_child w (add_parents r A) u = holds_child w r u"
  by (simp_all add: GetSource_def GetName_def host_uuid_def holds_child_def IsScene_def
      IsGroup_def add_parents_simps)

lemma with_parents_simps:
  "sourcesByUUID (with_parents c f) = sourcesByUUID c"
  "discoveredTypes (with_parents c f) = discoveredTypes c"
  "length (sources (with_parents c f)) = length (sources c)"
  "p < length (sources c) \<Longrightarrow> sources (with_parents c f) ! p = add_parents (sources c ! p) (f p)"
  by (simp_all add: with_parents_def)

lemma with_parents_cong:
  assumes "\<And>p. p < length (sources c) \<Longrightarrow> f p = g p"
  shows "with_parents c f = with_parents c g"
  using assms by (simp add: with_parents_def)

lemma with_parents_none: "with_parents c (\<lambda>p. {}) = c"
  by (simp add: with_parents_def add_parents_simps map_nth)

lemma with_parents_twice:
  "with_parents (with_parents c f) g = with_parents c (\<lambda>p. f p \<union> g p)"
  by (simp add: with_parents_def add_parents_simps)

lemma with_parents_update:
  "c\<lparr>sources := (sources c)[q := add_parents (sources c ! q) A]\<rparr> =
     with_parents c (\<lambda>p. if p = q then A else {})"
proof -
  have "(sources c)[q := add_parents (sources c ! q) A] =
      map (\<lambda>p. add_parents (sources c ! p) (if p = q then A else {})) [0..<length (sources c)]"
    by (rule nth_equalityI) (simp_all add: nth_list_update add_parents_simps)
  then show ?thesis by (simp add: with_parents_def)
qed

lemma link_scene_item_eq:
  "link_scene_item w n x c =
     with_parents c
       (\<lambda>p. if (\<exists>u. item_has_uuid w x u \<and> sourcesByUUID c u = Some p) then {n} else {})"
proof (cases x)
  case None
  then show ?thesis
    by (simp add: link_scene_item_def item_has_uuid_def with_parents_none)
next
  case (Some s)
  show ?thesis
  proof (cases "src_uuid (objects w s)")
    case None
    with Some show ?thesis
      by (simp add: link_scene_item_def item_has_uuid_def with_parents_none)
  next
    case u: (Some u)
    show ?thesis
    proof (cases "sourcesByUUID c u")
      case None
      with Some u show ?thesis
        by (simp add: link_scene_item_def item_has_uuid_def with_parents_none)
    next
      case q: (Some q)
      have "AddParentScene (sources c ! q) n = add_parents (sources c ! q) {n}"
        by (simp add: AddParentScene_def add_parents_def)
      with Some u q have "link_scene_item w n x c = with_parents c (\<lambda>p. if p = q then {n} else {})"
        by (simp add: link_scene_item_def with_parents_update)
      also have "\<dots> = with_parents c
         (\<lambda>p. if (\<exists>u. item_has_uuid w x u \<and> sourcesByUUID c u = Some p) then {n} else {})"
        using Some u q by (intro with_parents_cong) (auto simp: item_has_uuid_def)
      finally show ?thesis .
    qed
  qed
qed

lemma fold_link_scene_item:
  "fold (link_scene_item w n) items c =
     with_parents c
       (\<lambda>p. if (\<exists>u. (\<exists>i \<in> set items. item_has_uuid w i u) \<and> sourcesByUUID c u = Some p)
            then {n} else {})"
proof (induction items arbitrary: c)
  case Nil
  then show ?case by (simp add: with_parents_none)
next
  case (Cons x items)
  have "fold (link_scene_item w n) (x # items) c =
      fold (link_scene_item w n) items (link_scene_item w n x c)"
    by simp
  also have "\<dots> = with_parents c
      (\<lambda>p. (if (\<exists>u. item_has_uuid w x u \<and> sourcesByUUID c u = Some p) then {n} else {}) \<union>
           (if (\<exists>u. (\<exists>i \<in> set items. item_has_uuid w i u) \<and> sourcesByUUID c u = Some p)
            then {n} else {}))"
    unfolding Cons.IH
    by (simp add: link_scene_item_eq with_parents_simps with_parents_twice)
  also have "\<dots> = with_parents c
      (\<lambda>p. if (\<exists>u. (\<exists>i \<in> set (x # items). item_has_uuid w i u) \<and> sourcesByUUID c u = Some p)
           then {n} else {})"
    by (intro with_parents_cong) auto
  finally show ?case .
qed

lemma linked_names_single:
  "linked_names w c {q} p =
     (if (\<exists>u. sourcesByUUID c u = Some p \<and> holds_child w (sources c ! q) u)
      then {GetName w (sources c ! q)} else {})"
  by (auto simp: linked_names_def)

lemma linked_names_insert:
  "linked_names w c (insert q qs) p = linked_names w c {q} p \<union> linked_names w c qs p"
  by (auto simp: linked_names_def)

lemma linked_names_empty: "linked_names w c {} p = {}"
  by (simp add: linked_names_def)

lemma LinkSceneItems_item_eq:
  "LinkSceneItems_item w q c = with_parents c (linked_names w c {q})"
proof -
  have "LinkSceneItems_item w q c =
      with_parents c
        (\<lambda>p. if (\<exists>u. sourcesByUUID c u = Some p \<and> holds_child w (sources c ! q) u)
             then {GetName w (sources c ! q)} else {})"
  proof (cases "\<not> IsScene (sources c ! q) \<and> \<not> IsGroup (sources c ! q)")
    case True
    then show ?thesis
      by (simp add: LinkSceneItems_item_def holds_child_def with_parents_none)
  next
    case cont: False
    show ?thesis
    proof (cases "GetSource w (sources c ! q)")
      case None
      with cont show ?thesis
        by (simp add: LinkSceneItems_item_def holds_child_def with_parents_none)
    next
      case (Some h)
      show ?thesis
      proof (cases "src_scene (objects w h)")
        case None
        with cont Some show ?thesis
          by (simp add: LinkSceneItems_item_def holds_child_def with_parents_none)
      next
        case items: (Some items)
        from cont Some items have hc: "holds_child w (sources c ! q) u \<longleftrightarrow>
            (\<exists>i \<in> set items. item_has_uuid w i u)" for u
          by (auto simp: holds_child_def)
        from cont Some items have "LinkSceneItems_item w q c =
            fold (link_scene_item w (GetName w (sources c ! q))) items c"
          by (auto simp: LinkSceneItems_item_def)
        also have "\<dots> = with_parents c
            (\<lambda>p. if (\<exists>u. sourcesByUUID c u = Some p \<and> holds_child w (sources c ! q) u)
               then {GetName w (sources c ! q)} else {})"
          unfolding fold_link_scene_item hc
          by (intro with_parents_cong) auto
        finally show ?thesis .
      qed
    qed
  qed
  moreover have "linked_names w c {q} =
      (\<lambda>p. if (\<exists>u. sourcesByUUID c u = Some p \<and> holds_child w (sources c ! q) u)
           then {GetName w (sources c ! q)} else {})"
    by (rule ext) (rule linked_names_single)
  ultimately show ?thesis by simp
qed

lemma linked_names_with_parents:
  assumes "\<And>q. q \<in> qs \<Longrightarrow> q < length (sources c)"
  shows "linked_names w (with_parents c f) qs p = linked_names w c qs p"
proof -
  have same: "GetName w (sources (with_parents c f) ! q) = GetName w (sources c ! q)"
    "holds_child w (sources (with_parents c f) ! q) u = holds_child w (sources c ! q) u"
    if "q \<in> qs" for q u
    using assms [OF that] by (simp_all add: with_parents_simps add_parents_reads)
  show ?thesis
  proof (rule set_eqI)
    fix n
    have "n \<in> linked_names w (with_parents c f) qs p \<longleftrightarrow>
        (\<exists>q. q \<in> qs \<and> n = GetName w (sources (with_parents c f) ! q)
           \<and> (\<exists>u. sourcesByUUID c u = Some p
                 \<and> holds_child w (sources (with_parents c f) ! q) u))"
      unfolding linked_names_def with_parents_simps by blast
    also have "\<dots> \<longleftrightarrow>
        (\<exists>q. q \<in> qs \<and> n = GetName w (sources c ! q)
           \<and> (\<exists>u. sourcesByUUID c u = Some p \<and> holds_child w (sources c ! q) u))"
      using same by (simp cong: conj_cong)
    also have "\<dots> \<longleftrightarrow> n \<in> linked_names w c qs p"
      unfolding linked_names_def by blast
    finally show "n \<in> linked_names w (with_parents c f) qs p \<longleftrightarrow> n \<in> linked_names w c qs p" .
  qed
qed

lemma fold_LinkSceneItems_item:
  assumes "\<And>q. q \<in> set qs \<Longrightarrow> q < length (sources c)"
  shows "fold (LinkSceneItems_item w) qs c = with_parents c (linked_names w c (set qs))"
  using assms
proof (induction qs arbitrary: c)
  case Nil
  then show ?case
    by (simp add: linked_names_empty with_parents_none)
next
  case (Cons q qs)
  let ?c1 = "with_parents c (linked_names w c {q})"
  have "fold (LinkSceneItems_item w) (q # qs) c = fold (LinkSceneItems_item w) qs ?c1"
    by (simp add: LinkSceneItems_item_eq)
  also have "\<dots> = with_parents ?c1 (linked_names w ?c1 (set qs))"
    using Cons.prems by (intro Cons.IH) (simp add: with_parents_simps)
  also have "\<dots> = with_parents ?c1 (linked_names w c (set qs))"
    using Cons.prems
    by (intro with_parents_cong linked_names_with_parents) simp
  also have "\<dots> = with_parents c (linked_names w c (set (q # qs)))"
    unfolding with_parents_twice
  proof (rule with_parents_cong)
    fix p
    show "linked_names w c {q} p \<union> linked_names w c (set qs) p =
        linked_names w c (set (q # qs)) p"
      using linked_names_insert [of w c q "set qs" p] by simp
  qed
  finally show ?case .
qed

lemma third_pass:
  "LinkSceneItems w c = with_parents c (linked_names w c {..<length (sources c)})"
proof -
  have "fold (LinkSceneItems_item w) [0..<length (sources c)] c =
      with_parents c (linked_names w c (set [0..<length (sources c)]))"
    by (rule fold_LinkSceneItems_item) simp
  then show ?thesis
    by (simp add: LinkSceneItems_def atLeast0LessThan)
qed

section \<open>The snapshot Refresh builds\<close>

lemma uuid_inv_with_parents: "uuid_inv w (with_parents c f) = uuid_inv w c"
proof -
  have "host_uuid w (sources (with_parents c f) ! q) = host_uuid w (sources c ! q)"
    if "q < length (sources c)" for q
    using that by (simp add: with_parents_simps add_parents_reads)
  then show ?thesis
    unfolding uuid_inv_def with_parents_simps by (simp cong: conj_cong)
qed

text \<open>
  The snapshot is the collection \<open>c2\<close> the first two passes build, with the names the
  third pass links added.
\<close>

lemma Refresh_structure:
  obtains c2 tops extra where
    "Refresh w c = with_parents c2 (linked_names w c2 {..<length (sources c2)})"
    "uuid_inv w c2"
    "sources c2 = tops @ extra"
    "\<forall>item \<in> set tops. top_level_record w item"
    "\<forall>item \<in> set extra. effect_record w tops item \<and> parentScenes item = {}"
proof -
  define c1 where "c1 = fold (\<lambda>source c'. AddSource w c' source) (all_sources w) (Clear c)"
  define c2 where "c2 = LinkFilters w c1"
  have c1: "uuid_inv w c1" "\<forall>item \<in> set (sources c1). top_level_record w item"
    using first_pass [of w c] by (simp_all add: c1_def)
  from second_pass [OF c1(1)] obtain extra where
    "uuid_inv w c2" "sources c2 = sources c1 @ extra"
    "\<forall>item \<in> set extra. effect_record w (sources c1) item \<and> parentScenes item = {}"
    unfolding second_pass_inv_def c2_def by blast
  moreover have "Refresh w c = with_parents c2 (linked_names w c2 {..<length (sources c2)})"
    by (simp add: Refresh_def c1_def c2_def third_pass)
  ultimately show thesis
    using c1(2) that by blast
qed

lemma GetName_effect_record: "effect_record w tops item \<Longrightarrow> GetName w item \<noteq> []"
  by (auto simp: effect_record_def GetName_def GetSource_def)

lemma top_level_not_effect:
  "top_level_record w item \<Longrightarrow> parentSourceName item = [] \<and> sourceClass item \<noteq> Filter"
  by (simp add: top_level_record_def)

lemma effect_record_parent_name:
  assumes "effect_record w tops item" "\<forall>t \<in> set tops. top_level_record w t"
  shows "parentSourceName item \<noteq> []"
  using assms by (auto simp: effect_record_def top_level_record_def)

lemma effect_record_is_filter:
  assumes "effect_record w tops item" "\<forall>t \<in> set tops. top_level_record w t"
    and "filters_are_filters w"
  shows "sourceClass item = Filter"
proof -
  from assms(1) obtain parent h g where p: "parent \<in> set tops" "GetSource w parent = Some h"
    "Some g \<in> set (src_filters (objects w h))"
    "sourceClass item = sourceClass (new_SourceItem w (Some g))"
    unfolding effect_record_def by blast
  from p(1) assms(2) have "weakSource parent \<in> set (all_sources w)"
    by (simp add: top_level_record_def)
  moreover from p(2) have "weakSource parent = Some h"
    by (auto simp: GetSource_def split: option.splits if_splits)
  ultimately have "Some h \<in> set (all_sources w)" by simp
  with assms(3) p(3) have "src_type (objects w g) = OBS_SOURCE_TYPE_FILTER"
    unfolding filters_are_filters_def by fastforce
  with p(4) show ?thesis by (simp add: new_SourceItem_def)
qed

lemma in_sources_with_parents:
  assumes "item \<in> set (sources (with_parents c f))"
  obtains r A where "r \<in> set (sources c)" "item = add_parents r A"
proof -
  from assms obtain p where "p < length (sources c)" "item = sources (with_parents c f) ! p"
    by (auto simp: in_set_conv_nth with_parents_simps)
  then have "sources c ! p \<in> set (sources c)" "item = add_parents (sources c ! p) (f p)"
    by (simp_all add: with_parents_simps)
  then show thesis by (rule that)
qed

lemma uuid_inv_Refresh: "uuid_inv w (Refresh w c)"
proof -
  obtain c2 tops extra where
    "Refresh w c = with_parents c2 (linked_names w c2 {..<length (sources c2)})" "uuid_inv w c2"
    by (rule Refresh_structure)
  then show ?thesis by (simp add: uuid_inv_with_parents)
qed

lemma snapshot_record_valid:
  assumes "item \<in> set (sources (Refresh w c))"
  shows "GetName w item \<noteq> []"
proof -
  obtain c2 tops extra where s:
    "Refresh w c = with_parents c2 (linked_names w c2 {..<length (sources c2)})"
    "sources c2 = tops @ extra"
    "\<forall>item \<in> set tops. top_level_record w item"
    "\<forall>item \<in> set extra. effect_record w tops item \<and> parentScenes item = {}"
    by (rule Refresh_structure)
  from assms s(1) obtain r A where r: "r \<in> set (sources c2)" "item = add_parents r A"
    by (auto elim: in_sources_with_parents)
  from r(1) s(2-4) have "GetName w r \<noteq> []"
    by (auto simp: top_level_record_def GetName_effect_record)
  with r(2) show ?thesis by (simp add: add_parents_reads)
qed

lemma GetUUID_host_uuid:
  "GetName w item \<noteq> [] \<Longrightarrow>
   GetUUID w item = (case host_uuid w item of Some u \<Rightarrow> u | None \<Rightarrow> [])"
  by (auto simp: GetName_def GetUUID_def GetSource_def host_uuid_def split: option.splits if_splits)

lemma GetUUID_null: "host_uuid w item = None \<Longrightarrow> GetUUID w item = []"
  by (auto simp: GetUUID_def GetSource_def host_uuid_def split: option.splits)

section \<open>Claims about the snapshot\<close>

text \<open>
  C1, as stated, fails for objects whose host-reported identity is null: the two images of
  the example report no UUID, both are recorded, both records read the identity "", and
  offering the first image once more appends a third record.
\<close>

theorem null_identity_shared_counterexample:
  "length (sources (Refresh anon_host empty_collection)) = 2
   \<and> GetUUID anon_host (sources (Refresh anon_host empty_collection) ! 0) =
      GetUUID anon_host (sources (Refresh anon_host empty_collection) ! 1)
   \<and> AddSource anon_host (Refresh anon_host empty_collection) (Some 0) \<noteq>
      Refresh anon_host empty_collection"
proof -
  have s: "sources (Refresh anon_host empty_collection) =
      [new_SourceItem anon_host (Some 0), new_SourceItem anon_host (Some 1)]"
    by (simp add: refresh_defs anon_host_def anon_objects_def empty_collection_def no_object_def)
  have "sources (AddSource anon_host (Refresh anon_host empty_collection) (Some 0)) =
      sources (Refresh anon_host empty_collection) @ [new_SourceItem anon_host (Some 0)]"
    by (simp add: AddSource_def strstr_found_def IsValid_def GetSource_def new_SourceItem_def
        push_item_def anon_host_def anon_objects_def)
  then have "AddSource anon_host (Refresh anon_host empty_collection) (Some 0) \<noteq>
      Refresh anon_host empty_collection"
    by (metis append_self_conv not_Cons_self2)
  moreover have "GetUUID anon_host (new_SourceItem anon_host (Some 0)) =
      GetUUID anon_host (new_SourceItem anon_host (Some 1))"
    by (simp add: GetUUID_def GetSource_def new_SourceItem_def anon_host_def anon_objects_def)
  ultimately show ?thesis by (simp add: s)
qed

text \<open>
  C1, amended: in every snapshot produced by one \<^verbatim>\<open>Refresh\<close>, a record whose
  host-reported identity is not null shares it with no other record, so no two records
  with a reported identity read the same UUID; and whenever \<^verbatim>\<open>AddSource\<close> or
  \<^verbatim>\<open>AddFilter\<close> is offered an object whose reported, non-null identity is already in the
  UUID map, the collection is unchanged. An object that reports no identity is never taken
  for a duplicate: if it passes the other checks it is appended, whatever the collection
  already holds, the UUID map is left as it is, and its record reads the identity "".
\<close>

theorem identity_unique_unless_null:
  "(p < length (sources (Refresh w c0)) \<and> q < length (sources (Refresh w c0)) \<and> p \<noteq> q
      \<and> host_uuid w (sources (Refresh w c0) ! p) \<noteq> None
    \<longrightarrow> host_uuid w (sources (Refresh w c0) ! q) \<noteq> host_uuid w (sources (Refresh w c0) ! p))
   \<and> (p < length (sources (Refresh w c0)) \<and> q < length (sources (Refresh w c0)) \<and> p \<noteq> q
      \<and> host_uuid w (sources (Refresh w c0) ! p) \<noteq> None
      \<and> host_uuid w (sources (Refresh w c0) ! q) \<noteq> None
    \<longrightarrow> GetUUID w (sources (Refresh w c0) ! q) \<noteq> GetUUID w (sources (Refresh w c0) ! p))
   \<and> (src_uuid (objects w h) = Some u \<and> sourcesByUUID c u \<noteq> None
    \<longrightarrow> AddSource w c (Some h) = c \<and> AddFilter w c (Some h) parentName = c)
   \<and> (src_uuid (objects w g) = None
      \<and> src_type (objects w g) \<noteq> OBS_SOURCE_TYPE_FILTER
      \<and> src_type (objects w g) \<noteq> OBS_SOURCE_TYPE_TRANSITION
      \<and> src_name (objects w g) = Some name \<and> name \<noteq> []
      \<and> src_id (objects w g) = Some typeId \<and> typeId \<noteq> ''audio_monitor''
      \<and> \<not> strstr_found typeId ''_wrapper_'' \<and> \<not> strstr_found name ''(Stinger)''
      \<and> typeId \<noteq> ''audio_line'' \<and> \<not> src_expired (objects w g)
    \<longrightarrow> sources (AddSource w c (Some g)) = sources c @ [new_SourceItem w (Some g)]
        \<and> sourcesByUUID (AddSource w c (Some g)) = sourcesByUUID c)
   \<and> (src_uuid (objects w g) = None
      \<and> src_name (objects w g) = Some name \<and> name \<noteq> []
      \<and> src_id (objects w g) = Some typeId \<and> typeId \<noteq> ''audio_monitor''
      \<and> \<not> src_expired (objects w g)
    \<longrightarrow> sources (AddFilter w c (Some g) parentName) =
          sources c @ [SetParentSourceName (new_SourceItem w (Some g)) parentName]
        \<and> sourcesByUUID (AddFilter w c (Some g) parentName) = sourcesByUUID c)
   \<and> (host_uuid w item = None \<longrightarrow> GetUUID w item = [])"
proof -
  let ?S = "sources (Refresh w c0)"
  have distinct_ids: "host_uuid w (?S ! q) \<noteq> host_uuid w (?S ! p)"
    if "p < length ?S" "q < length ?S" "p \<noteq> q" "host_uuid w (?S ! p) \<noteq> None" for p q
  proof
    assume eq: "host_uuid w (?S ! q) = host_uuid w (?S ! p)"
    from that(4) obtain v where v: "host_uuid w (?S ! p) = Some v" by blast
    from uuid_inv_Refresh [of w c0] v that(1) have "sourcesByUUID (Refresh w c0) v = Some p"
      by (simp add: uuid_inv_def)
    moreover from uuid_inv_Refresh [of w c0] v eq that(2)
    have "sourcesByUUID (Refresh w c0) v = Some q"
      by (simp add: uuid_inv_def)
    ultimately show False using that(3) by simp
  qed
  have distinct_uuids: "GetUUID w (?S ! q) \<noteq> GetUUID w (?S ! p)"
    if "p < length ?S" "q < length ?S" "p \<noteq> q" "host_uuid w (?S ! p) \<noteq> None"
      "host_uuid w (?S ! q) \<noteq> None" for p q
  proof -
    from that(1,2) have "GetName w (?S ! p) \<noteq> []" "GetName w (?S ! q) \<noteq> []"
      by (auto intro!: snapshot_record_valid nth_mem)
    then have "GetUUID w (?S ! p) = (case host_uuid w (?S ! p) of Some u \<Rightarrow> u | None \<Rightarrow> [])"
      "GetUUID w (?S ! q) = (case host_uuid w (?S ! q) of Some u \<Rightarrow> u | None \<Rightarrow> [])"
      by (simp_all add: GetUUID_host_uuid)
    with distinct_ids [OF that(1-4)] that(4,5) show ?thesis
      by auto
  qed
  have rejected: "AddSource w c (Some h) = c \<and> AddFilter w c (Some h) parentName = c"
    if "src_uuid (objects w h) = Some u" "sourcesByUUID c u \<noteq> None"
    using that by (auto simp: AddSource_def AddFilter_def split: option.splits)
  have source_recorded:
    "sources (AddSource w c (Some g)) = sources c @ [new_SourceItem w (Some g)]
     \<and> sourcesByUUID (AddSource w c (Some g)) = sourcesByUUID c"
    if "src_uuid (objects w g) = None"
      "src_type (objects w g) \<noteq> OBS_SOURCE_TYPE_FILTER"
      "src_type (objects w g) \<noteq> OBS_SOURCE_TYPE_TRANSITION"
      "src_name (objects w g) = Some name" "name \<noteq> []"
      "src_id (objects w g) = Some typeId" "typeId \<noteq> ''audio_monitor''"
      "\<not> strstr_found typeId ''_wrapper_''" "\<not> strstr_found name ''(Stinger)''"
      "typeId \<noteq> ''audio_line''" "\<not> src_expired (objects w g)"
  proof -
    from that(11) have "IsValid w (new_SourceItem w (Some g))"
      by (simp add: IsValid_def GetSource_def new_SourceItem_def)
    with that show ?thesis
      by (simp add: AddSource_def sources_push_item sourcesByUUID_push_item)
  qed
  have filter_recorded:
    "sources (AddFilter w c (Some g) parentName) =
        sources c @ [SetParentSourceName (new_SourceItem w (Some g)) parentName]
     \<and> sourcesByUUID (AddFilter w c (Some g) parentName) = sourcesByUUID c"
    if "src_uuid (objects w g) = None"
      "src_name (objects w g) = Some name" "name \<noteq> []"
      "src_id (objects w g) = Some typeId" "typeId \<noteq> ''audio_monitor''"
      "\<not> src_expired (objects w g)"
  proof -
    from that(6) have "IsValid w (new_SourceItem w (Some g))"
      by (simp add: IsValid_def GetSource_def new_SourceItem_def)
    with that show ?thesis
      by (simp add: AddFilter_def sources_push_item sourcesByUUID_push_item)
  qed
  from distinct_ids distinct_uuids rejected source_recorded filter_recorded GetUUID_null [of w item]
  show ?thesis by blast
qed

text \<open>
  C1 at the examples: "Cam1" and "Helper" are recorded under different UUIDs, and offering
  "Cam1" again, as a source or as a filter, changes nothing; the image "Logo" reports no
  UUID, is recorded again when it is offered again, and its record reads "".
\<close>

theorem identity_unique_unless_null_witness:
  "2 < length (sources demo_snapshot) \<and> 3 < length (sources demo_snapshot)
   \<and> host_uuid demo_host (sources demo_snapshot ! 2) = Some ''u2''
   \<and> host_uuid demo_host (sources demo_snapshot ! 3) = Some ''u4''
   \<and> GetUUID demo_host (sources demo_snapshot ! 3) \<noteq> GetUUID demo_host (sources demo_snapshot ! 2)
   \<and> src_uuid (objects demo_host 2) = Some ''u2''
   \<and> sourcesByUUID demo_snapshot ''u2'' = Some 2
   \<and> AddSource demo_host demo_snapshot (Some 2) = demo_snapshot
   \<and> AddFilter demo_host demo_snapshot (Some 2) ''Main'' = demo_snapshot
   \<and> src_uuid (objects anon_host 0) = None
   \<and> weakSource (sources (Refresh anon_host empty_collection) ! 0) = Some 0
   \<and> sources (AddSource anon_host (Refresh anon_host empty_collection) (Some 0)) =
       sources (Refresh anon_host empty_collection) @ [new_SourceItem anon_host (Some 0)]
   \<and> sources (AddFilter anon_host (Refresh anon_host empty_collection) (Some 0) ''Logo'') =
       sources (Refresh anon_host empty_collection)
         @ [SetParentSourceName (new_SourceItem anon_host (Some 0)) ''Logo'']
   \<and> host_uuid anon_host (sources (Refresh anon_host empty_collection) ! 0) = None
   \<and> GetUUID anon_host (sources (Refresh anon_host empty_collection) ! 0) = []"
proof -
  have h: "2 < length (sources demo_snapshot)" "3 < length (sources demo_snapshot)"
    "host_uuid demo_host (sources demo_snapshot ! 2) = Some ''u2''"
    "host_uuid demo_host (sources demo_snapshot ! 3) = Some ''u4''"
    "src_uuid (objects demo_host 2) = Some ''u2''"
    by (simp_all add: sources_demo_snapshot demo_items_def host_uuid_def demo_host_sel
        demo_objects_def)
  note m = sourcesByUUID_demo_snapshot
  have a: "src_uuid (objects anon_host 0) = None"
    "src_type (objects anon_host 0) \<noteq> OBS_SOURCE_TYPE_FILTER"
    "src_type (objects anon_host 0) \<noteq> OBS_SOURCE_TYPE_TRANSITION"
    "src_name (objects anon_host 0) = Some ''Logo''" "''Logo'' \<noteq> []"
    "src_id (objects anon_host 0) = Some ''image_source''" "''image_source'' \<noteq> ''audio_monitor''"
    "\<not> strstr_found ''image_source'' ''_wrapper_''" "\<not> strstr_found ''Logo'' ''(Stinger)''"
    "''image_source'' \<noteq> ''audio_line''" "\<not> src_expired (objects anon_host 0)"
    by (simp_all add: anon_host_sel anon_objects_def strstr_found_def)
  have n: "weakSource (sources (Refresh anon_host empty_collection) ! 0) = Some 0"
    "host_uuid anon_host (sources (Refresh anon_host empty_collection) ! 0) = None"
    by (simp_all add: sources_anon_snapshot new_SourceItem_def host_uuid_def anon_host_sel
        anon_objects_def)
  from h m identity_unique_unless_null
    [where p = 2 and q = 3 and w = demo_host and ?c0.0 = empty_collection and h = 2
       and u = "''u2''" and c = demo_snapshot and parentName = "''Main''"]
  have demo: "GetUUID demo_host (sources demo_snapshot ! 3) \<noteq> GetUUID demo_host (sources demo_snapshot ! 2)
      \<and> AddSource demo_host demo_snapshot (Some 2) = demo_snapshot
      \<and> AddFilter demo_host demo_snapshot (Some 2) ''Main'' = demo_snapshot"
    unfolding demo_snapshot_def [symmetric] by simp
  from a n identity_unique_unless_null
    [where w = anon_host and g = 0 and name = "''Logo''" and typeId = "''image_source''"
       and c = "Refresh anon_host empty_collection" and parentName = "''Logo''"
       and item = "sources (Refresh anon_host empty_collection) ! 0"]
  have anon: "sources (AddSource anon_host (Refresh anon_host empty_collection) (Some 0)) =
       sources (Refresh anon_host empty_collection) @ [new_SourceItem anon_host (Some 0)]
   \<and> sources (AddFilter anon_host (Refresh anon_host empty_collection) (Some 0) ''Logo'') =
       sources (Refresh anon_host empty_collection)
         @ [SetParentSourceName (new_SourceItem anon_host (Some 0)) ''Logo'']
   \<and> GetUUID anon_host (sources (Refresh anon_host empty_collection) ! 0) = []"
    by simp
  from h m a(1) n demo anon show ?thesis by simp
qed

text \<open>
  C4, as stated, fails: \<^verbatim>\<open>AddFilter\<close> does not look at the type of the object it is
  offered, and the constructor classifies by it. In the example the host lists "Overlay",
  typed as an input, among the filters of "Cam"; its record has the parent source name
  "Cam" and is not classified as a filter.
\<close>

theorem attachment_without_filter_class_counterexample:
  "Some 1 \<in> set (src_filters (objects mistyped_host 0))
   \<and> weakSource (sources (Refresh mistyped_host empty_collection) ! 1) = Some 1
   \<and> parentSourceName (sources (Refresh mistyped_host empty_collection) ! 1) = ''Cam''
   \<and> sourceClass (sources (Refresh mistyped_host empty_collection) ! 1) = Source
   \<and> \<not> (parentSourceName (sources (Refresh mistyped_host empty_collection) ! 1) \<noteq> []
          \<longleftrightarrow> IsFilter (sources (Refresh mistyped_host empty_collection) ! 1))"
  by (simp add: sources_mistyped_snapshot new_SourceItem_def SetParentSourceName_def
      IsFilter_def mistyped_host_sel mistyped_objects_def)

text \<open>
  C4, amended: in every snapshot a record is classified as a filter if and only if it has
  a parent source name and the host types its object as a filter; so every filter record
  has a parent source name. When every filter the host reports for an enumerated source is
  of type \<^verbatim>\<open>OBS_SOURCE_TYPE_FILTER\<close>, a record has a parent source name if and only if it
  is classified as a filter.
\<close>

theorem attachment_and_classification:
  assumes "item \<in> set (sources (Refresh w c))"
  shows "(IsFilter item \<longleftrightarrow>
            parentSourceName item \<noteq> []
            \<and> (\<exists>g. weakSource item = Some g \<and> src_type (objects w g) = OBS_SOURCE_TYPE_FILTER))
         \<and> (filters_are_filters w \<longrightarrow> (parentSourceName item \<noteq> [] \<longleftrightarrow> IsFilter item))"
proof -
  obtain c2 tops extra where s:
    "Refresh w c = with_parents c2 (linked_names w c2 {..<length (sources c2)})"
    "sources c2 = tops @ extra"
    "\<forall>item \<in> set tops. top_level_record w item"
    "\<forall>item \<in> set extra. effect_record w tops item \<and> parentScenes item = {}"
    by (rule Refresh_structure)
  from assms s(1) obtain r A where r: "r \<in> set (sources c2)" "item = add_parents r A"
    by (auto elim: in_sources_with_parents)
  from r(1) s(2) consider (top) "r \<in> set tops" | (effect) "r \<in> set extra"
    by auto
  then have "(sourceClass r = Filter \<longleftrightarrow>
            parentSourceName r \<noteq> []
            \<and> (\<exists>g. weakSource r = Some g \<and> src_type (objects w g) = OBS_SOURCE_TYPE_FILTER))
         \<and> (filters_are_filters w \<longrightarrow> (parentSourceName r \<noteq> [] \<longleftrightarrow> sourceClass r = Filter))"
  proof cases
    case top
    with s(3) have "top_level_record w r" by simp
    then show ?thesis
      by (simp add: top_level_not_effect)
  next
    case effect
    with s(4) have e: "effect_record w tops r" by simp
    from e s(3) have named: "parentSourceName r \<noteq> []"
      by (rule effect_record_parent_name)
    from e obtain g where g: "weakSource r = Some g"
      "sourceClass r = sourceClass (new_SourceItem w (Some g))"
      unfolding effect_record_def by blast
    from g(2) have "sourceClass r = Filter \<longleftrightarrow> src_type (objects w g) = OBS_SOURCE_TYPE_FILTER"
      by (simp add: new_SourceItem_def)
    with g(1) named have first: "sourceClass r = Filter \<longleftrightarrow>
            parentSourceName r \<noteq> []
            \<and> (\<exists>g. weakSource r = Some g \<and> src_type (objects w g) = OBS_SOURCE_TYPE_FILTER)"
      by simp
    have "sourceClass r = Filter" if "filters_are_filters w"
      using e s(3) that by (rule effect_record_is_filter)
    with named first show ?thesis by blast
  qed
  then show ?thesis
    unfolding r(2) IsFilter_def add_parents_simps .
qed

text \<open>
  C4 at the example: the record of the filter "Blur" names "Cam1", and the record of
  "Cam1" names no parent source and is no filter.
\<close>

theorem attachment_and_classification_witness:
  "filters_are_filters demo_host
   \<and> sources demo_snapshot ! 6 \<in> set (sources demo_snapshot)
   \<and> parentSourceName (sources demo_snapshot ! 6) = ''Cam1''
   \<and> IsFilter (sources demo_snapshot ! 6)
   \<and> sources demo_snapshot ! 2 \<in> set (sources demo_snapshot)
   \<and> parentSourceName (sources demo_snapshot ! 2) = []
   \<and> \<not> IsFilter (sources demo_snapshot ! 2)"
proof -
  have wf: "filters_are_filters demo_host"
    by (simp add: filters_are_filters_def demo_host_sel demo_objects_def)
  have m: "sources demo_snapshot ! 6 \<in> set (sources demo_snapshot)"
    "sources demo_snapshot ! 2 \<in> set (sources demo_snapshot)"
    unfolding sources_demo_snapshot demo_items_def by simp_all
  have n: "parentSourceName (sources demo_snapshot ! 6) = ''Cam1''"
    "parentSourceName (sources demo_snapshot ! 2) = []"
    by (simp_all add: sources_demo_snapshot demo_items_def)
  from attachment_and_classification [of "sources demo_snapshot ! 6" demo_host empty_collection]
    wf m(1)
  have "parentSourceName (sources demo_snapshot ! 6) \<noteq> [] \<longleftrightarrow>
      IsFilter (sources demo_snapshot ! 6)"
    unfolding demo_snapshot_def [symmetric] by blast
  moreover
  from attachment_and_classification [of "sources demo_snapshot ! 2" demo_host empty_collection]
    wf m(2)
  have "parentSourceName (sources demo_snapshot ! 2) \<noteq> [] \<longleftrightarrow>
      IsFilter (sources demo_snapshot ! 2)"
    unfolding demo_snapshot_def [symmetric] by blast
  ultimately show ?thesis
    using wf m n by simp
qed

text \<open>
  C5, as stated, fails: in the example the nested scene "Vertical" and the group "Grp"
  are items of the scene "Main", and both records hold the parent scene name "Main".
\<close>

theorem container_parents_counterexample:
  "IsScene (sources demo_snapshot ! 1)
   \<and> parentScenes (sources demo_snapshot ! 1) = {''Main''}
   \<and> IsGroup (sources demo_snapshot ! 4)
   \<and> parentScenes (sources demo_snapshot ! 4) = {''Main''}"
  by (simp add: sources_demo_snapshot demo_items_def IsScene_def IsGroup_def)

text \<open>
  C5, amended: after the relationship-linking pass the set of parent scenes of a record,
  whatever its classification, is exactly the set of names of the scene and group records
  that hold an item with the record's reported identity. Scene and group records that are
  items of a scene acquire parent names as plain records do; a record whose identity no
  item carries, or that reports none, keeps the empty set.
\<close>

theorem parent_scenes_of_snapshot:
  assumes "p < length (sources (Refresh w c))"
  shows "parentScenes (sources (Refresh w c) ! p) =
     {GetName w cont | cont u.
        cont \<in> set (sources (Refresh w c))
        \<and> host_uuid w (sources (Refresh w c) ! p) = Some u \<and> holds_child w cont u}"
proof -
  obtain c2 tops extra where s:
    "Refresh w c = with_parents c2 (linked_names w c2 {..<length (sources c2)})"
    "uuid_inv w c2"
    "sources c2 = tops @ extra"
    "\<forall>item \<in> set tops. top_level_record w item"
    "\<forall>item \<in> set extra. effect_record w tops item \<and> parentScenes item = {}"
    by (rule Refresh_structure)
  let ?n = "length (sources c2)"
  let ?S = "sources (Refresh w c)"
  have len: "length ?S = ?n"
    by (simp add: s(1) with_parents_simps)
  have at: "?S ! q = add_parents (sources c2 ! q) (linked_names w c2 {..<?n} q)"
    if "q < ?n" for q
    using that by (simp add: s(1) with_parents_simps)
  from assms len have p: "p < ?n" by simp
  have "sources c2 ! p \<in> set tops \<union> set extra"
    using p s(3) by (metis nth_mem set_append)
  with s(4,5) have "parentScenes (sources c2 ! p) = {}"
    by (auto simp: top_level_record_def)
  with at [OF p] have "parentScenes (?S ! p) = linked_names w c2 {..<?n} p"
    by (simp add: add_parents_simps)
  also have "\<dots> = {GetName w cont | cont u.
        cont \<in> set ?S \<and> host_uuid w (?S ! p) = Some u \<and> holds_child w cont u}"
  proof (rule set_eqI)
    fix n
    have "n \<in> linked_names w c2 {..<?n} p \<longleftrightarrow>
        (\<exists>q u. q < ?n \<and> n = GetName w (sources c2 ! q)
           \<and> host_uuid w (sources c2 ! p) = Some u \<and> holds_child w (sources c2 ! q) u)"
      using s(2) p unfolding linked_names_def uuid_inv_def by auto
    also have "\<dots> \<longleftrightarrow>
        (\<exists>q u. q < ?n \<and> n = GetName w (?S ! q)
           \<and> host_uuid w (?S ! p) = Some u \<and> holds_child w (?S ! q) u)"
      using p by (simp add: at add_parents_reads cong: conj_cong)
    also have "\<dots> \<longleftrightarrow>
        (\<exists>cont u. cont \<in> set ?S \<and> n = GetName w cont
           \<and> host_uuid w (?S ! p) = Some u \<and> holds_child w cont u)"
      unfolding in_set_conv_nth len by blast
    also have "\<dots> \<longleftrightarrow> n \<in> {GetName w cont | cont u.
        cont \<in> set ?S \<and> host_uuid w (?S ! p) = Some u \<and> holds_child w cont u}"
      by blast
    finally show "n \<in> linked_names w c2 {..<?n} p \<longleftrightarrow> n \<in> {GetName w cont | cont u.
        cont \<in> set ?S \<and> host_uuid w (?S ! p) = Some u \<and> holds_child w cont u}" .
  qed
  finally show ?thesis .
qed

text \<open>
  C5 at the example: the parent scenes of the group "Grp" are the names of the records
  that hold an item with its UUID, and "Main" is one of them.
\<close>

theorem parent_scenes_of_snapshot_witness:
  "4 < length (sources demo_snapshot)
   \<and> parentScenes (sources demo_snapshot ! 4) =
       {GetName demo_host cont | cont u.
          cont \<in> set (sources demo_snapshot)
          \<and> host_uuid demo_host (sources demo_snapshot ! 4) = Some u
          \<and> holds_child demo_host cont u}
   \<and> ''Main'' \<in> parentScenes (sources demo_snapshot ! 4)"
proof -
  have h: "4 < length (sources demo_snapshot)"
    by (simp add: sources_demo_snapshot demo_items_def)
  have "''Main'' \<in> parentScenes (sources demo_snapshot ! 4)"
    by (simp add: sources_demo_snapshot demo_items_def)
  with h parent_scenes_of_snapshot [of 4 demo_host empty_collection]
  show ?thesis
    unfolding demo_snapshot_def [symmetric] by simp
qed

lemma effect_record_in_snapshot:
  assumes e: "effect_record w tops r"
    and tops: "\<And>t. t \<in> set tops \<Longrightarrow>
        \<exists>t' \<in> set tops'. GetSource w t' = GetSource w t \<and> GetName w t' = GetName w t"
  shows "effect_record w tops' (add_parents r A)"
proof -
  from e obtain parent h g name typeId where p: "parent \<in> set tops"
    "GetSource w parent = Some h" "Some g \<in> set (src_filters (objects w h))"
    "weakSource r = Some g" "\<not> src_expired (objects w g)"
    "src_name (objects w g) = Some name" "name \<noteq> []"
    "src_id (objects w g) = Some typeId" "typeId \<noteq> ''audio_monitor''"
    "cachedTypeId r = typeId" "sourceClass r = sourceClass (new_SourceItem w (Some g))"
    "parentSourceName r = GetName w parent"
    unfolding effect_record_def by blast
  from tops [OF p(1)] obtain parent' where p': "parent' \<in> set tops'"
    "GetSource w parent' = GetSource w parent" "GetName w parent' = GetName w parent"
    by blast
  from p have "GetSource w parent' = Some h \<and> Some g \<in> set (src_filters (objects w h))
      \<and> weakSource (add_parents r A) = Some g \<and> \<not> src_expired (objects w g)
      \<and> src_name (objects w g) = Some name \<and> name \<noteq> []
      \<and> src_id (objects w g) = Some typeId \<and> typeId \<noteq> ''audio_monitor''
      \<and> cachedTypeId (add_parents r A) = typeId
      \<and> sourceClass (add_parents r A) = sourceClass (new_SourceItem w (Some g))
      \<and> parentSourceName (add_parents r A) = GetName w parent'"
    by (simp add: p' add_parents_simps)
  with p'(1) show ?thesis
    unfolding effect_record_def by blast
qed

text \<open>
  C3, as stated, fails: in the example the filter "Fade (Stinger)" of "Cam1" has the type
  tag "audio_line" and a name with "(Stinger)" in it, and the second pass records it; the
  filter "Crop" of the scene "Main" is recorded with the parent source name "Main", while
  the display name of its parent is "(H) Main".
\<close>

theorem effects_pass_parity_counterexample:
  "weakSource (sources demo_snapshot ! 7) = Some 5
   \<and> IsFilter (sources demo_snapshot ! 7)
   \<and> src_id (objects demo_host 5) = Some ''audio_line''
   \<and> src_name (objects demo_host 5) = Some ''Fade (Stinger)''
   \<and> strstr_found ''Fade (Stinger)'' ''(Stinger)''
   \<and> weakSource (sources demo_snapshot ! 5) = Some 6
   \<and> Some 6 \<in> set (src_filters (objects demo_host 0))
   \<and> weakSource (sources demo_snapshot ! 0) = Some 0
   \<and> parentSourceName (sources demo_snapshot ! 5) = ''Main''
   \<and> GetDisplayName demo_host (sources demo_snapshot ! 0) = ''(H) Main''
   \<and> parentSourceName (sources demo_snapshot ! 5) \<noteq>
       GetDisplayName demo_host (sources demo_snapshot ! 0)"
  by (simp add: sources_demo_snapshot demo_items_def IsFilter_def demo_host_sel
      demo_objects_def strstr_found_def GetDisplayName_def GetName_def GetSource_def
      IsVerticalCanvas_def)

text \<open>
  C3, amended: \<^verbatim>\<open>AddFilter\<close> rejects an effect exactly when the pointer is null, the name
  is missing or empty, the type tag is missing or is "audio_monitor", the reported identity
  is already recorded, or the weak reference does not resolve; the "_wrapper_",
  "audio_line" and "(Stinger)" checks of the first pass are not applied to effects. An
  effect that is not rejected is appended as one record, classified by the constructor
  (a filter when the host types it so), with the parent source name it was offered with;
  and every record of a snapshot that has a parent source name points to a filter of the
  object of a record of the snapshot, passed these checks, and carries that record's raw
  name (\<^verbatim>\<open>GetName\<close>, without the (H)/(V) annotation).
\<close>

theorem effects_pass_checks:
  "(AddFilter w c flt parentName \<noteq> c \<longleftrightarrow>
      (\<exists>h name typeId. flt = Some h
         \<and> src_name (objects w h) = Some name \<and> name \<noteq> []
         \<and> src_id (objects w h) = Some typeId \<and> typeId \<noteq> ''audio_monitor''
         \<and> (\<forall>u. src_uuid (objects w h) = Some u \<longrightarrow> sourcesByUUID c u = None)
         \<and> \<not> src_expired (objects w h)))
   \<and> (AddFilter w c flt parentName \<noteq> c \<longrightarrow>
        sources (AddFilter w c flt parentName) =
          sources c @ [SetParentSourceName (new_SourceItem w flt) parentName])
   \<and> (item \<in> set (sources (Refresh w c0)) \<and> parentSourceName item \<noteq> [] \<longrightarrow>
        effect_record w (sources (Refresh w c0)) item)"
proof (intro conjI)
  let ?ok = "\<exists>h name typeId. flt = Some h
         \<and> src_name (objects w h) = Some name \<and> name \<noteq> []
         \<and> src_id (objects w h) = Some typeId \<and> typeId \<noteq> ''audio_monitor''
         \<and> (\<forall>u. src_uuid (objects w h) = Some u \<longrightarrow> sourcesByUUID c u = None)
         \<and> \<not> src_expired (objects w h)"
  have pushed: "sources (AddFilter w c flt parentName) =
      sources c @ [SetParentSourceName (new_SourceItem w flt) parentName]" if ?ok
  proof -
    from that obtain h name typeId where ok: "flt = Some h"
      "src_name (objects w h) = Some name" "name \<noteq> []"
      "src_id (objects w h) = Some typeId" "typeId \<noteq> ''audio_monitor''"
      "\<forall>u. src_uuid (objects w h) = Some u \<longrightarrow> sourcesByUUID c u = None"
      "\<not> src_expired (objects w h)"
      by blast
    from ok(6) have "\<not> (case src_uuid (objects w h) of Some u \<Rightarrow> sourcesByUUID c u \<noteq> None
        | None \<Rightarrow> False)"
      by (simp split: option.splits)
    moreover from ok(7) have "IsValid w (new_SourceItem w (Some h))"
      by (simp add: IsValid_def GetSource_def new_SourceItem_def)
    ultimately show ?thesis
      using ok(1-5) by (simp add: AddFilter_def sources_push_item)
  qed
  show "AddFilter w c flt parentName \<noteq> c \<longleftrightarrow> ?ok"
  proof
    assume "AddFilter w c flt parentName \<noteq> c"
    with AddFilter_result [of w c flt parentName] show ?ok by blast
  next
    assume ?ok
    from pushed [OF this] have "sources (AddFilter w c flt parentName) \<noteq> sources c"
      by simp
    then show "AddFilter w c flt parentName \<noteq> c" by auto
  qed
  then show "AddFilter w c flt parentName \<noteq> c \<longrightarrow>
        sources (AddFilter w c flt parentName) =
          sources c @ [SetParentSourceName (new_SourceItem w flt) parentName]"
    using pushed by blast
  show "item \<in> set (sources (Refresh w c0)) \<and> parentSourceName item \<noteq> [] \<longrightarrow>
        effect_record w (sources (Refresh w c0)) item"
  proof
    assume a: "item \<in> set (sources (Refresh w c0)) \<and> parentSourceName item \<noteq> []"
    obtain c2 tops extra where s:
      "Refresh w c0 = with_parents c2 (linked_names w c2 {..<length (sources c2)})"
      "sources c2 = tops @ extra"
      "\<forall>item \<in> set tops. top_level_record w item"
      "\<forall>item \<in> set extra. effect_record w tops item \<and> parentScenes item = {}"
      by (rule Refresh_structure)
    from a s(1) obtain r A where r: "r \<in> set (sources c2)" "item = add_parents r A"
      by (auto elim: in_sources_with_parents)
    from a r(2) have named: "parentSourceName r \<noteq> []"
      by (simp add: add_parents_simps)
    have "r \<notin> set tops"
    proof
      assume "r \<in> set tops"
      with s(3) have "top_level_record w r" by simp
      with named show False by (simp add: top_level_record_def)
    qed
    with r(1) s(2,4) have e: "effect_record w tops r" by auto
    have "\<exists>t' \<in> set (sources (Refresh w c0)).
        GetSource w t' = GetSource w t \<and> GetName w t' = GetName w t" if "t \<in> set tops" for t
    proof -
      from that s(2) have "t \<in> set (sources c2)" by simp
      then obtain k where k: "k < length (sources c2)" "sources c2 ! k = t"
        unfolding in_set_conv_nth by blast
      let ?t' = "sources (Refresh w c0) ! k"
      from k have "?t' = add_parents t (linked_names w c2 {..<length (sources c2)} k)"
        by (simp add: s(1) with_parents_simps)
      moreover from k(1) have "k < length (sources (Refresh w c0))"
        by (simp add: s(1) with_parents_simps)
      then have "?t' \<in> set (sources (Refresh w c0))"
        by (rule nth_mem)
      ultimately show ?thesis
        by (metis add_parents_reads(1,2))
    qed
    with e show "effect_record w (sources (Refresh w c0)) item"
      unfolding r(2) by (rule effect_record_in_snapshot)
  qed
qed

text \<open>
  C3 at the example: "Fade (Stinger)" is accepted by \<^verbatim>\<open>AddFilter\<close>, and its record in
  the snapshot names a parent.
\<close>

theorem effects_pass_checks_witness:
  "AddFilter demo_host empty_collection (Some 5) ''Cam1'' \<noteq> empty_collection
   \<and> sources (AddFilter demo_host empty_collection (Some 5) ''Cam1'') =
       sources empty_collection @ [SetParentSourceName (new_SourceItem demo_host (Some 5)) ''Cam1'']
   \<and> sources demo_snapshot ! 7 \<in> set (sources demo_snapshot)
   \<and> parentSourceName (sources demo_snapshot ! 7) = ''Cam1''
   \<and> effect_record demo_host (sources demo_snapshot) (sources demo_snapshot ! 7)"
proof -
  have ok: "\<exists>h name typeId. Some 5 = Some h
         \<and> src_name (objects demo_host h) = Some name \<and> name \<noteq> []
         \<and> src_id (objects demo_host h) = Some typeId \<and> typeId \<noteq> ''audio_monitor''
         \<and> (\<forall>u. src_uuid (objects demo_host h) = Some u \<longrightarrow> sourcesByUUID empty_collection u = None)
         \<and> \<not> src_expired (objects demo_host h)"
    by (simp add: demo_host_sel demo_objects_def empty_collection_def)
  have m: "sources demo_snapshot ! 7 \<in> set (sources demo_snapshot)"
    "parentSourceName (sources demo_snapshot ! 7) = ''Cam1''"
    by (simp_all add: sources_demo_snapshot demo_items_def)
  from ok m effects_pass_checks
    [of demo_host empty_collection "Some 5" "''Cam1''" "sources demo_snapshot ! 7" empty_collection]
  show ?thesis
    unfolding demo_snapshot_def [symmetric] by simp
qed

end
